theory Spec2Isabelle
  imports Complex_Main "HOL-Library.AList" "HOL-Library.Multiset" "HOL-Library.Log_Nat"
begin

section \<open>Expense tracker backend: debt calculation and settlement records\<close>

text \<open>
  The development embeds \<^verbatim>\<open>utils/debtCalculator.js\<close> (the functions
  \<^verbatim>\<open>calculateRawDebts\<close> and \<^verbatim>\<open>simplifyDebts\<close>), the share validation of
  \<^verbatim>\<open>POST api/expenses\<close>, and the handlers \<^verbatim>\<open>POST api/debts/calculate\<close>,
  \<^verbatim>\<open>POST api/debts/settle\<close> and \<^verbatim>\<open>POST api/debts/finalize\<close> of
  \<^verbatim>\<open>routes/debts.js\<close>.

  Modelling conventions.
  \<^item> The debt calculator is embedded twice. In the first embedding a JavaScript number is
    an exact real number (\<^typ>\<open>real\<close>): its statements are about exact arithmetic. In the
    second embedding (names with the suffix \<open>F\<close>) a number is an IEEE double: operations
    round to nearest, overflow to an infinity and propagate \<^verbatim>\<open>NaN\<close>. The second one
    settles what rounding, overflow or \<^verbatim>\<open>NaN\<close> decide.
  \<^item> A plain JavaScript object used as a dictionary is an association list in insertion
    order: \<^verbatim>\<open>Object.keys\<close> enumerates string keys in the order of their creation, and
    assigning to an existing key keeps its position. This is what \<^const>\<open>AList.update\<close>
    does. User ids are the strings produced by \<^verbatim>\<open>ObjectId.toString()\<close> (24 hexadecimal
    digits), so a key is never an array index and never a name inherited from
    \<^verbatim>\<open>Object.prototype\<close>.
  \<^item> \<^verbatim>\<open>forEach\<close> over an array is \<^const>\<open>fold\<close> over the list, threading the mutated
    dictionary.
\<close>

subsection \<open>Data model\<close>

text \<open>One element of \<^verbatim>\<open>sharedAmongst\<close> of the Expense schema.\<close>

record share =
  user :: string
  shareType :: string
  shareValue :: real

text \<open>The fields of an Expense document that the debt code reads.\<close>

record expense =
  family :: nat
  creator :: string
  amount :: real
  date :: int
  sharedAmongst :: "share list"

type_synonym debtRow = "(string \<times> real) list"
type_synonym debtMap = "(string \<times> debtRow) list"
type_synonym balanceMap = "(string \<times> real) list"

text \<open>An element of the array returned by \<^verbatim>\<open>simplifyDebts\<close>: \<^verbatim>\<open>{from, to, amount}\<close>.\<close>

record transaction =
  t_from :: string
  t_to :: string
  t_amount :: real

subsection \<open>calculateRawDebts\<close>

text \<open>Lines 31 to 39: the amount a share owes to the creator, by share type.\<close>

definition owedAmount :: "real \<Rightarrow> share \<Rightarrow> real" where
  "owedAmount amt s =
     (if shareType s = ''equal'' then amt * shareValue s
      else if shareType s = ''percentage'' then amt * (shareValue s / 100)
      else if shareType s = ''fixed'' then shareValue s
      else 0)"

text \<open>Reading a numeric cell that may be absent: \<^verbatim>\<open>if (!m[k]) m[k] = 0\<close> followed by a read.\<close>

definition cell :: "(string \<times> real) list \<Rightarrow> string \<Rightarrow> real" where
  "cell al k = (case map_of al k of None \<Rightarrow> 0 | Some v \<Rightarrow> v)"

definition rowOf :: "debtMap \<Rightarrow> string \<Rightarrow> debtRow" where
  "rowOf m k = (case map_of m k of None \<Rightarrow> [] | Some r \<Rightarrow> r)"

text \<open>
  Lines 42 to 50. A missing row is created empty, a missing (or zero) cell is set to 0,
  then the owed amount is added to the cell.
\<close>

definition addDebt :: "string \<Rightarrow> string \<Rightarrow> real \<Rightarrow> debtMap \<Rightarrow> debtMap" where
  "addDebt usr cr owed m =
     AList.update usr (AList.update cr (cell (rowOf m usr) cr + owed) (rowOf m usr)) m"

text \<open>Lines 22 to 51: the body of the inner \<^verbatim>\<open>forEach\<close>, for one share of expense \<open>e\<close>.\<close>

definition processShare :: "expense \<Rightarrow> share \<Rightarrow> debtMap \<Rightarrow> debtMap" where
  "processShare e s m =
     (if user s = creator e then m
      else addDebt (user s) (creator e) (owedAmount (amount e) s) m)"

definition processExpense :: "expense \<Rightarrow> debtMap \<Rightarrow> debtMap" where
  "processExpense e m = fold (processShare e) (sharedAmongst e) m"

definition calculateRawDebts :: "expense list \<Rightarrow> debtMap" where
  "calculateRawDebts expenses = fold processExpense expenses []"

text \<open>The accumulated amount \<^verbatim>\<open>debtMap[debtor][creditor]\<close>, if that cell exists.\<close>

definition entry :: "debtMap \<Rightarrow> string \<Rightarrow> string \<Rightarrow> real option" where
  "entry m debtor creditor =
     (case map_of m debtor of None \<Rightarrow> None | Some r \<Rightarrow> map_of r creditor)"

subsection \<open>simplifyDebts\<close>

text \<open>\<^verbatim>\<open>if (!balances[u]) balances[u] = 0\<close>: an absent key is appended, a zero stays.\<close>

definition initBalance :: "string \<Rightarrow> balanceMap \<Rightarrow> balanceMap" where
  "initBalance u b =
     (case map_of b u of
        None \<Rightarrow> AList.update u 0 b
      | Some v \<Rightarrow> (if v = 0 then AList.update u 0 b else b))"

text \<open>\<^verbatim>\<open>balances[u] += x\<close> on a key that \<^const>\<open>initBalance\<close> has created.\<close>

definition addBalance :: "string \<Rightarrow> real \<Rightarrow> balanceMap \<Rightarrow> balanceMap" where
  "addBalance u x b = AList.update u (cell b u + x) b"

text \<open>Lines 70 to 76: one creditor cell of the row of \<open>debtor\<close>.\<close>

definition applyEntry :: "string \<Rightarrow> string \<times> real \<Rightarrow> balanceMap \<Rightarrow> balanceMap" where
  "applyEntry debtor ce b =
     addBalance (fst ce) (snd ce) (addBalance debtor (- snd ce) (initBalance (fst ce) b))"

text \<open>Lines 67 to 77: one row of the matrix.\<close>

definition applyRow :: "string \<times> debtRow \<Rightarrow> balanceMap \<Rightarrow> balanceMap" where
  "applyRow dr b = fold (applyEntry (fst dr)) (snd dr) (initBalance (fst dr) b)"

definition netBalances :: "debtMap \<Rightarrow> balanceMap" where
  "netBalances rawDebts = fold applyRow rawDebts []"

text \<open>
  Lines 83 to 91: users with balance below \<open>-0.01\<close> are debtors (with the magnitude of the
  balance), users with balance above \<open>0.01\<close> are creditors, in the key order of the
  balances.
\<close>

definition debtorsOf :: "balanceMap \<Rightarrow> (string \<times> real) list" where
  "debtorsOf b = map (\<lambda>p. (fst p, - snd p)) (filter (\<lambda>p. snd p < - (1 / 100)) b)"

definition creditorsOf :: "balanceMap \<Rightarrow> (string \<times> real) list" where
  "creditorsOf b = filter (\<lambda>p. \<not> snd p < - (1 / 100) \<and> snd p > 1 / 100) b"

text \<open>
  Lines 94 and 95: \<^verbatim>\<open>sort((a, b) => b.amount - a.amount)\<close>, a stable sort by descending
  amount.
\<close>

definition sortDesc :: "(string \<times> real) list \<Rightarrow> (string \<times> real) list" where
  "sortDesc xs = sort_key (\<lambda>p. - snd p) xs"

text \<open>\<^verbatim>\<open>Math.round(amount * 100) / 100\<close>; \<^verbatim>\<open>Math.round\<close> rounds a tie upwards.\<close>

definition round2 :: "real \<Rightarrow> real" where
  "round2 x = of_int \<lfloor>x * 100 + 1 / 2\<rfloor> / 100"

text \<open>
  Lines 100 to 121: the matching loop. The state is the two work lists and the
  transactions emitted so far. The loop is a partial function: a run that never leaves
  the loop has the value \<open>None\<close>.
\<close>

definition evict :: "string \<times> real \<Rightarrow> real \<Rightarrow> (string \<times> real) list \<Rightarrow> (string \<times> real) list" where
  "evict p amt rest =
     (if snd p - amt < 1 / 100 then rest else (fst p, snd p - amt) # rest)"

partial_function (option) matchLoop ::
  "(string \<times> real) list \<Rightarrow> (string \<times> real) list \<Rightarrow> transaction list \<Rightarrow> transaction list option"
where
  "matchLoop debtors creditors transactions =
     (case debtors of
        [] \<Rightarrow> Some transactions
      | debtor # ds \<Rightarrow>
          (case creditors of
             [] \<Rightarrow> Some transactions
           | creditor # cs \<Rightarrow>
               matchLoop
                 (evict debtor (min (snd debtor) (snd creditor)) ds)
                 (evict creditor (min (snd debtor) (snd creditor)) cs)
                 (transactions @
                    [\<lparr>t_from = fst debtor, t_to = fst creditor,
                      t_amount = round2 (min (snd debtor) (snd creditor))\<rparr>])))"

definition simplifyDebts :: "debtMap \<Rightarrow> transaction list option" where
  "simplifyDebts rawDebts =
     matchLoop (sortDesc (debtorsOf (netBalances rawDebts)))
               (sortDesc (creditorsOf (netBalances rawDebts))) []"

subsection \<open>The three-user example\<close>

definition exampleExpenses :: "expense list" where
  "exampleExpenses =
     [\<lparr>family = 0, creator = ''A'', amount = 90, date = 0,
       sharedAmongst =
         [\<lparr>user = ''A'', shareType = ''equal'', shareValue = 1 / 3\<rparr>,
          \<lparr>user = ''B'', shareType = ''equal'', shareValue = 1 / 3\<rparr>,
          \<lparr>user = ''C'', shareType = ''equal'', shareValue = 1 / 3\<rparr>]\<rparr>,
      \<lparr>family = 0, creator = ''B'', amount = 30, date = 0,
       sharedAmongst =
         [\<lparr>user = ''B'', shareType = ''equal'', shareValue = 1 / 2\<rparr>,
          \<lparr>user = ''C'', shareType = ''equal'', shareValue = 1 / 2\<rparr>]\<rparr>]"

definition exampleMatrix :: debtMap where
  "exampleMatrix = [(''B'', [(''A'', 30)]), (''C'', [(''A'', 30), (''B'', 15)])]"

subsection \<open>Share validation of \<^verbatim>\<open>POST api/expenses\<close>\<close>

record member =
  m_user :: string
  role :: string

text \<open>The field of a Family document that the handlers read.\<close>

record familyDoc =
  members :: "member list"

text \<open>
  Lines 53 to 100 of the expense route: the value of \<^verbatim>\<open>processedSharedAmongst\<close>, or
  the message of the 400 response. The request's shares carry all three fields; an empty
  \<^verbatim>\<open>shareType\<close> is falsy and reads as \<^verbatim>\<open>'equal'\<close>. No branch looks at the sign
  of the amount or of a share value.
\<close>

definition processSharedAmongst :: "familyDoc \<Rightarrow> real \<Rightarrow> share list \<Rightarrow> string + share list" where
  "processSharedAmongst fam amt shared =
     (if shared \<noteq> [] then
        (if \<not> list_all (\<lambda>s. user s \<in> set (map m_user (members fam))) shared
         then Inl ''All shared users must be family members''
         else if (if shareType (hd shared) = [] then ''equal'' else shareType (hd shared)) = ''equal''
         then Inr (map (\<lambda>s. \<lparr>user = user s, shareType = ''equal'',
                               shareValue = 1 / real (length shared)\<rparr>) shared)
         else if shareType (hd shared) = ''percentage''
         then (if \<bar>foldl (\<lambda>sum s. sum + shareValue s) 0 shared - 100\<bar> > 1 / 100
               then Inl ''Percentage shares must total 100%''
               else Inr shared)
         else if shareType (hd shared) = ''fixed''
         then (if \<bar>foldl (\<lambda>sum s. sum + shareValue s) 0 shared - amt\<bar> > 1 / 100
               then Inl ''Fixed shares must total to expense amount''
               else Inr shared)
         else Inr [])
      else Inr (map (\<lambda>m. \<lparr>user = m_user m, shareType = ''equal'',
                            shareValue = 1 / real (length (members fam))\<rparr>) (members fam)))"

text \<open>
  The invariants that the specification attaches to the shares of one stored expense:
  equal shares hold \<open>1 / participantCount\<close>; percentage shares lie between 0 and 100 and
  total 100 up to 0.01; fixed shares total the expense amount up to 0.01.
\<close>

definition sharesValid :: "expense \<Rightarrow> bool" where
  "sharesValid e =
     (sharedAmongst e \<noteq> [] \<and>
      (list_all (\<lambda>s. shareType s = ''equal'' \<and>
                       shareValue s = 1 / real (length (sharedAmongst e))) (sharedAmongst e)
       \<or> (list_all (\<lambda>s. shareType s = ''percentage'' \<and> 0 \<le> shareValue s \<and> shareValue s \<le> 100)
             (sharedAmongst e)
           \<and> \<bar>sum_list (map shareValue (sharedAmongst e)) - 100\<bar> \<le> 1 / 100)
       \<or> (list_all (\<lambda>s. shareType s = ''fixed'') (sharedAmongst e)
           \<and> \<bar>sum_list (map shareValue (sharedAmongst e)) - amount e\<bar> \<le> 1 / 100)))"

text \<open>The expense amount is not negative, and neither is any fixed share.\<close>

definition signsValid :: "expense \<Rightarrow> bool" where
  "signsValid e =
     (0 \<le> amount e \<and>
      list_all (\<lambda>s. shareType s \<noteq> ''fixed'' \<or> 0 \<le> shareValue s) (sharedAmongst e))"

subsection \<open>Settlement records and the handlers of \<^verbatim>\<open>routes/debts.js\<close>\<close>

text \<open>
  An element of \<^verbatim>\<open>debts\<close> of the Debt schema: a transaction with the schema's
  \<^verbatim>\<open>settled\<close> (default false) and \<^verbatim>\<open>settledAt\<close>.
\<close>

record debtEntry = transaction +
  settled :: bool
  settledAt :: "int option"

record debtDoc =
  debtFamily :: nat
  periodStart :: int
  periodEnd :: int
  debts :: "debtEntry list"
  isFinalized :: bool
  finalizedAt :: "int option"
  createdAt :: int
  updatedAt :: int

text \<open>
  The three collections. A document's \<^verbatim>\<open>_id\<close> is its position in its collection: the
  handlers below append documents and overwrite them in place, and none deletes one.
  Dates are milliseconds since the epoch. Storage failures are outside the model.
\<close>

record database =
  families :: "familyDoc list"
  expenseDocs :: "expense list"
  debtDocs :: "debtDoc list"

definition findById :: "'a list \<Rightarrow> nat \<Rightarrow> 'a option" where
  "findById coll i = (if i < length coll then Some (coll ! i) else None)"

definition isFamilyHead :: "database \<Rightarrow> string \<Rightarrow> nat \<Rightarrow> bool" where
  "isFamilyHead db userId familyId =
     (case findById (families db) familyId of
        None \<Rightarrow> False
      | Some fam \<Rightarrow> list_ex (\<lambda>m. role m = ''head'' \<and> m_user m = userId) (members fam))"

definition isFamilyMember :: "database \<Rightarrow> string \<Rightarrow> nat \<Rightarrow> bool" where
  "isFamilyMember db userId familyId =
     (case findById (families db) familyId of
        None \<Rightarrow> False
      | Some fam \<Rightarrow> list_ex (\<lambda>m. m_user m = userId) (members fam))"

text \<open>
  What a handler sends: the 400 answer of the request validator, a status with a message,
  the 400 answer that names the finalized record, or the saved document.
\<close>

datatype response =
    ValidationErrors
  | Status nat string
  | StatusFinalized nat string nat
  | OkDebt debtDoc

definition isFailure :: "response \<Rightarrow> bool" where
  "isFailure r = (case r of OkDebt _ \<Rightarrow> False | _ \<Rightarrow> True)"

text \<open>
  The query \<^verbatim>\<open>Debt.findOne\<close> of the calculate handler: the first finalized record of the
  family whose period overlaps the requested one.
\<close>

definition findFinalized :: "debtDoc list \<Rightarrow> nat \<Rightarrow> int \<Rightarrow> int \<Rightarrow> nat option" where
  "findFinalized coll familyId startDate endDate =
     map_option fst
       (find (\<lambda>p. debtFamily (snd p) = familyId \<and> isFinalized (snd p) \<and>
                   periodStart (snd p) \<le> endDate \<and> periodEnd (snd p) \<ge> startDate)
          (enumerate 0 coll))"

definition findExpenses :: "expense list \<Rightarrow> nat \<Rightarrow> int \<Rightarrow> int \<Rightarrow> expense list" where
  "findExpenses coll familyId startDate endDate =
     filter (\<lambda>e. family e = familyId \<and> startDate \<le> date e \<and> date e \<le> endDate) coll"

text \<open>\<^verbatim>\<open>new Debt({family, period, debts: simplifiedDebts})\<close> with the schema defaults.\<close>

definition newDebt :: "int \<Rightarrow> nat \<Rightarrow> int \<Rightarrow> int \<Rightarrow> transaction list \<Rightarrow> debtDoc" where
  "newDebt now familyId startDate endDate simplifiedDebts =
     \<lparr>debtFamily = familyId, periodStart = startDate, periodEnd = endDate,
      debts = map (\<lambda>t. \<lparr>t_from = t_from t, t_to = t_to t, t_amount = t_amount t,
                          settled = False, settledAt = None\<rparr>) simplifiedDebts,
      isFinalized = False, finalizedAt = None, createdAt = now, updatedAt = now\<rparr>"

text \<open>
  \<^verbatim>\<open>POST api/debts/calculate/:familyId\<close>, lines 140 to 212. \<open>None\<close> for a date is a missing
  or empty body field. The result is \<open>None\<close> when \<^const>\<open>simplifyDebts\<close> does not return.
\<close>

record calculateReq =
  c_user :: string
  c_familyId :: nat
  c_startDate :: "int option"
  c_endDate :: "int option"

definition calculate :: "int \<Rightarrow> calculateReq \<Rightarrow> database \<Rightarrow> (response \<times> database) option" where
  "calculate now rq db =
     (case c_startDate rq of
        None \<Rightarrow> Some (ValidationErrors, db)
      | Some startDate \<Rightarrow>
     (case c_endDate rq of
        None \<Rightarrow> Some (ValidationErrors, db)
      | Some endDate \<Rightarrow>
          if \<not> isFamilyMember db (c_user rq) (c_familyId rq)
          then Some (Status 403 ''Not authorized to calculate debts for this family'', db)
          else
     (case findFinalized (debtDocs db) (c_familyId rq) startDate endDate of
        Some finalizedId \<Rightarrow>
          Some (StatusFinalized 400 ''This period has already been finalized'' finalizedId, db)
      | None \<Rightarrow>
          if findExpenses (expenseDocs db) (c_familyId rq) startDate endDate = []
          then Some (Status 400 ''No expenses found for the given period'', db)
          else
     (case simplifyDebts
             (calculateRawDebts (findExpenses (expenseDocs db) (c_familyId rq) startDate endDate)) of
        None \<Rightarrow> None
      | Some simplifiedDebts \<Rightarrow>
          Some (OkDebt (newDebt now (c_familyId rq) startDate endDate simplifiedDebts),
                db\<lparr>debtDocs := debtDocs db @
                      [newDebt now (c_familyId rq) startDate endDate simplifiedDebts]\<rparr>)))))"

text \<open>
  \<^verbatim>\<open>POST api/debts/settle/:debtId\<close>, lines 226 to 283. The body's \<^verbatim>\<open>debtIndex\<close> is an
  integer, or \<open>None\<close> when the validator rejects it. \<open>now\<close> is the reading of the clock.
\<close>

record settleReq =
  s_user :: string
  s_debtId :: nat
  s_debtIndex :: "int option"

definition markSettled :: "int \<Rightarrow> nat \<Rightarrow> debtDoc \<Rightarrow> debtDoc" where
  "markSettled now i debt =
     debt\<lparr>debts := (debts debt)[i := (debts debt ! i)\<lparr>settled := True, settledAt := Some now\<rparr>],
          updatedAt := now\<rparr>"

definition settle :: "int \<Rightarrow> settleReq \<Rightarrow> database \<Rightarrow> response \<times> database" where
  "settle now rq db =
     (case s_debtIndex rq of
        None \<Rightarrow> (ValidationErrors, db)
      | Some debtIndex \<Rightarrow>
     (case findById (debtDocs db) (s_debtId rq) of
        None \<Rightarrow> (Status 404 ''Debt record not found'', db)
      | Some debt \<Rightarrow>
          if \<not> isFamilyHead db (s_user rq) (debtFamily debt)
          then (Status 403 ''Only head of family can settle debts'', db)
          else if isFinalized debt
          then (Status 400 ''This debt record is already finalized'', db)
          else if debtIndex < 0 \<or> debtIndex \<ge> int (length (debts debt))
          then (Status 400 ''Invalid debt index'', db)
          else if settled (debts debt ! nat debtIndex)
          then (Status 400 ''This debt is already settled'', db)
          else (OkDebt (markSettled now (nat debtIndex) debt),
                db\<lparr>debtDocs := (debtDocs db)[s_debtId rq := markSettled now (nat debtIndex) debt]\<rparr>)))"

text \<open>\<^verbatim>\<open>POST api/debts/finalize/:debtId\<close>, lines 289 to 336.\<close>

record finalizeReq =
  f_user :: string
  f_debtId :: nat

definition markFinalized :: "int \<Rightarrow> debtDoc \<Rightarrow> debtDoc" where
  "markFinalized now debt = debt\<lparr>isFinalized := True, finalizedAt := Some now, updatedAt := now\<rparr>"

definition finalize :: "int \<Rightarrow> finalizeReq \<Rightarrow> database \<Rightarrow> response \<times> database" where
  "finalize now rq db =
     (case findById (debtDocs db) (f_debtId rq) of
        None \<Rightarrow> (Status 404 ''Debt record not found'', db)
      | Some debt \<Rightarrow>
          if \<not> isFamilyHead db (f_user rq) (debtFamily debt)
          then (Status 403 ''Only head of family can finalize debts'', db)
          else if isFinalized debt
          then (Status 400 ''This debt record is already finalized'', db)
          else if \<not> list_all settled (debts debt)
          then (Status 400 ''All debts must be settled before finalizing'', db)
          else (OkDebt (markFinalized now debt),
                db\<lparr>debtDocs := (debtDocs db)[f_debtId rq := markFinalized now debt]\<rparr>))"

text \<open>
  A request to the server. \<open>Other\<close> stands for every route outside
  \<^verbatim>\<open>routes/debts.js\<close> and for its two \<^verbatim>\<open>GET\<close> handlers: such a request may rewrite
  the family and expense collections, and no code there writes a Debt document.
\<close>

datatype request =
    Calculate calculateReq
  | Settle settleReq
  | Finalize finalizeReq
  | Other "familyDoc list" "expense list"

fun handle :: "int \<Rightarrow> request \<Rightarrow> database \<Rightarrow> (response option \<times> database) option" where
  "handle now (Calculate rq) db = map_option (\<lambda>p. (Some (fst p), snd p)) (calculate now rq db)"
| "handle now (Settle rq) db = Some (Some (fst (settle now rq db)), snd (settle now rq db))"
| "handle now (Finalize rq) db = Some (Some (fst (finalize now rq db)), snd (finalize now rq db))"
| "handle now (Other fams exps) db = Some (None, db\<lparr>families := fams, expenseDocs := exps\<rparr>)"

text \<open>Serving a sequence of timed requests, collecting the answers.\<close>

fun serve :: "(int \<times> request) list \<Rightarrow> database \<Rightarrow> (response option list \<times> database) option" where
  "serve [] db = Some ([], db)"
| "serve (tr # rest) db =
     (case handle (fst tr) (snd tr) db of
        None \<Rightarrow> None
      | Some p \<Rightarrow>
          (case serve rest (snd p) of
             None \<Rightarrow> None
           | Some q \<Rightarrow> Some (fst p # fst q, snd q)))"

text \<open>Whether a request is a settle or finalize call on record \<open>i\<close>.\<close>

fun targets :: "nat \<Rightarrow> request \<Rightarrow> bool" where
  "targets i (Settle rq) = (s_debtId rq = i)"
| "targets i (Finalize rq) = (f_debtId rq = i)"
| "targets i _ = False"

subsection \<open>Auxiliary notions for the proofs\<close>

text \<open>An upper bound on the number of iterations left for two work lists.\<close>

definition potential :: "(string \<times> real) list \<Rightarrow> (string \<times> real) list \<Rightarrow> nat" where
  "potential ds cs = (if ds = [] \<or> cs = [] then 0 else length ds + length cs - 1)"

text \<open>The users whose net balance has magnitude above 0.01.\<close>

definition activeUsers :: "balanceMap \<Rightarrow> (string \<times> real) list" where
  "activeUsers b = filter (\<lambda>p. \<bar>snd p\<bar> > 1 / 100) b"

text \<open>
  The owed amounts that the shares of expense \<open>e\<close>, respectively of a list of expenses,
  add to the cell of \<open>debtor\<close> and \<open>creditor\<close>, in the order of processing.
\<close>

definition contributes :: "expense \<Rightarrow> string \<Rightarrow> string \<Rightarrow> share \<Rightarrow> bool" where
  "contributes e debtor creditor s =
     (creator e = creditor \<and> user s = debtor \<and> user s \<noteq> creator e)"

definition shareContribs :: "expense \<Rightarrow> string \<Rightarrow> string \<Rightarrow> real list" where
  "shareContribs e debtor creditor =
     map (owedAmount (amount e)) (filter (contributes e debtor creditor) (sharedAmongst e))"

definition contribs :: "expense list \<Rightarrow> string \<Rightarrow> string \<Rightarrow> real list" where
  "contribs es debtor creditor = concat (map (\<lambda>e. shareContribs e debtor creditor) es)"

text \<open>Two expenses that differ at most in the order of their shares.\<close>

definition sameUpToShareOrder :: "expense \<Rightarrow> expense \<Rightarrow> bool" where
  "sameUpToShareOrder e e' =
     (family e' = family e \<and> creator e' = creator e \<and> amount e' = amount e \<and>
      date e' = date e \<and> mset (sharedAmongst e') = mset (sharedAmongst e))"

text \<open>
  Adding a list of amounts to a cell that may be absent: nothing happens for the empty
  list, otherwise the cell exists afterwards and holds the old value (0 if absent) plus
  the sum of the list.
\<close>

definition accum :: "real option \<Rightarrow> real list \<Rightarrow> real option" where
  "accum v xs = (if xs = [] then v else Some ((case v of None \<Rightarrow> 0 | Some x \<Rightarrow> x) + sum_list xs))"

text \<open>
  The answer to a timed request is acceptable for a closed record \<open>i\<close>: a settle or
  finalize call on \<open>i\<close> got an answer, and the answer is a failure.
\<close>

definition refused :: "nat \<Rightarrow> int \<times> request \<Rightarrow> response option \<Rightarrow> bool" where
  "refused i tr a = (if targets i (snd tr) then (case a of None \<Rightarrow> False | Some r \<Rightarrow> isFailure r) else True)"

text \<open>No row of the matrix is an empty dictionary.\<close>

definition rowsNonEmpty :: "debtMap \<Rightarrow> bool" where
  "rowsNonEmpty m = list_all (\<lambda>p. snd p \<noteq> []) m"

text \<open>
  The invariant of the matching loop: every remaining amount is at least 0.01, debtors
  come from \<open>D\<close> and creditors from \<open>C\<close>, and so do the endpoints of every transaction
  emitted so far, whose amounts are at least 0.01.
\<close>

definition sound ::
  "string set \<Rightarrow> string set \<Rightarrow> (string \<times> real) list \<Rightarrow> (string \<times> real) list
     \<Rightarrow> transaction list \<Rightarrow> bool" where
  "sound D C ds cs ts =
     (list_all (\<lambda>p. 1 / 100 \<le> snd p \<and> fst p \<in> D) ds \<and>
      list_all (\<lambda>p. 1 / 100 \<le> snd p \<and> fst p \<in> C) cs \<and>
      list_all (\<lambda>t. 1 / 100 \<le> t_amount t \<and> t_from t \<in> D \<and> t_to t \<in> C) ts)"

subsection \<open>Example data\<close>

definition exampleFamily :: familyDoc where
  "exampleFamily =
     \<lparr>members = [\<lparr>m_user = ''A'', role = ''head''\<rparr>, \<lparr>m_user = ''B'', role = ''member''\<rparr>,
                 \<lparr>m_user = ''C'', role = ''member''\<rparr>]\<rparr>"

definition exampleDb :: database where
  "exampleDb = \<lparr>families = [exampleFamily], expenseDocs = exampleExpenses, debtDocs = []\<rparr>"

text \<open>A database whose only expense is shared by its creator alone.\<close>

definition selfOnlyDb :: database where
  "selfOnlyDb =
     \<lparr>families = [exampleFamily],
      expenseDocs =
        [\<lparr>family = 0, creator = ''A'', amount = 50, date = 5,
          sharedAmongst = [\<lparr>user = ''A'', shareType = ''equal'', shareValue = 1\<rparr>]\<rparr>],
      debtDocs = []\<rparr>"

definition exampleRequest :: calculateReq where
  "exampleRequest = \<lparr>c_user = ''A'', c_familyId = 0, c_startDate = Some 0, c_endDate = Some 10\<rparr>"

definition exampleTransactions :: "transaction list" where
  "exampleTransactions =
     [\<lparr>t_from = ''C'', t_to = ''A'', t_amount = 45\<rparr>,
      \<lparr>t_from = ''B'', t_to = ''A'', t_amount = 15\<rparr>]"

text \<open>
  The record created at time 1000 for the example expenses, the same record with both
  transactions settled, and databases that hold the one or the other.
\<close>

definition exampleDebt :: debtDoc where
  "exampleDebt = newDebt 1000 0 0 10 exampleTransactions"

definition settledDebt :: debtDoc where
  "settledDebt = markSettled 2001 1 (markSettled 2000 0 exampleDebt)"

definition openDb :: database where
  "openDb = exampleDb\<lparr>debtDocs := [exampleDebt]\<rparr>"

definition settledDb :: database where
  "settledDb = exampleDb\<lparr>debtDocs := [settledDebt]\<rparr>"

definition noExpensesDb :: database where
  "noExpensesDb = exampleDb\<lparr>expenseDocs := []\<rparr>"

text \<open>Requests of the family head A on record 0.\<close>

definition settleByHead :: "int \<Rightarrow> settleReq" where
  "settleByHead i = \<lparr>s_user = ''A'', s_debtId = 0, s_debtIndex = Some i\<rparr>"

definition finalizeByHead :: finalizeReq where
  "finalizeByHead = \<lparr>f_user = ''A'', f_debtId = 0\<rparr>"

text \<open>
  An expense of 100 paid by A with fixed shares 150 for A and -50 for B: the shares total
  the amount.
\<close>

definition negativeShareExpense :: expense where
  "negativeShareExpense =
     \<lparr>family = 0, creator = ''A'', amount = 100, date = 0,
      sharedAmongst =
        [\<lparr>user = ''A'', shareType = ''fixed'', shareValue = 150\<rparr>,
         \<lparr>user = ''B'', shareType = ''fixed'', shareValue = - 50\<rparr>]\<rparr>"

text \<open>The example expenses in reverse order, the shares of each one reordered.\<close>

definition reorderedExpenses :: "expense list" where
  "reorderedExpenses =
     [\<lparr>family = 0, creator = ''B'', amount = 30, date = 0,
       sharedAmongst =
         [\<lparr>user = ''C'', shareType = ''equal'', shareValue = 1 / 2\<rparr>,
          \<lparr>user = ''B'', shareType = ''equal'', shareValue = 1 / 2\<rparr>]\<rparr>,
      \<lparr>family = 0, creator = ''A'', amount = 90, date = 0,
       sharedAmongst =
         [\<lparr>user = ''C'', shareType = ''equal'', shareValue = 1 / 3\<rparr>,
          \<lparr>user = ''A'', shareType = ''equal'', shareValue = 1 / 3\<rparr>,
          \<lparr>user = ''B'', shareType = ''equal'', shareValue = 1 / 3\<rparr>]\<rparr>]"


section \<open>The calculation in IEEE double arithmetic\<close>

text \<open>
  The second embedding of \<^verbatim>\<open>utils/debtCalculator.js\<close>: the same functions, line by
  line, with the numbers and operations of JavaScript. Its names carry the suffix \<open>F\<close>.
\<close>

subsection \<open>Doubles\<close>

text \<open>
  A JavaScript number: a finite value, one of the two infinities, or \<^verbatim>\<open>NaN\<close>. The
  finite values that arise are the binary64 numbers, since every operation rounds its
  exact result with \<open>rnd\<close>. The sign of zero is not modelled: \<open>-0\<close> is \<open>0\<close>. It only
  shows in a division by zero, and the code divides by the constant 100 only.
\<close>

datatype double = Fin real | PInf | NInf | NaN

definition pow2 :: "int \<Rightarrow> real" where
  "pow2 e = (if 0 \<le> e then 2 ^ nat e else 1 / 2 ^ nat (- e))"

text \<open>
  The binary exponent of a non-zero real, that is the integer \<open>e\<close> with
  \<open>2\<^sup>e \<le> \<bar>x\<bar> < 2\<^sup>e\<^sup>+\<^sup>1\<close>, computed from the bit length of an integer.
\<close>

definition binade :: "real \<Rightarrow> int" where
  "binade x =
     (if 1 \<le> \<bar>x\<bar> then bitlen \<lfloor>\<bar>x\<bar>\<rfloor> - 1 else - bitlen (\<lceil>1 / \<bar>x\<bar>\<rceil> - 1))"

text \<open>
  The distance between neighbouring doubles around \<open>x\<close>: 53 significant bits, and
  \<open>2\<^sup>-\<^sup>1\<^sup>0\<^sup>7\<^sup>4\<close> in the subnormal range.
\<close>

definition quantum :: "real \<Rightarrow> real" where
  "quantum x = pow2 (max (binade x - 52) (- 1074))"

text \<open>The nearest integer, a tie going to the even one.\<close>

definition roundEven :: "real \<Rightarrow> int" where
  "roundEven x =
     (if x - of_int \<lfloor>x\<rfloor> < 1 / 2 then \<lfloor>x\<rfloor>
      else if 1 / 2 < x - of_int \<lfloor>x\<rfloor> then \<lfloor>x\<rfloor> + 1
      else if even \<lfloor>x\<rfloor> then \<lfloor>x\<rfloor>
      else \<lfloor>x\<rfloor> + 1)"

text \<open>The largest finite double, \<^verbatim>\<open>Number.MAX_VALUE\<close>.\<close>

definition maxDouble :: real where
  "maxDouble = (2 ^ 53 - 1) * 2 ^ 971"

text \<open>
  Rounding to nearest, ties to even: the exact result is rounded to a multiple of the
  quantum, and a rounded result beyond the largest finite double is an infinity.
\<close>

definition rnd :: "real \<Rightarrow> double" where
  "rnd x =
     (if x = 0 then Fin 0
      else if maxDouble < \<bar>of_int (roundEven (x / quantum x)) * quantum x\<bar>
      then (if x < 0 then NInf else PInf)
      else Fin (of_int (roundEven (x / quantum x)) * quantum x))"

text \<open>Unary minus, \<^verbatim>\<open>+\<close>, \<^verbatim>\<open>-\<close>, \<^verbatim>\<open>*\<close>, \<^verbatim>\<open>/\<close> and \<^verbatim>\<open><\<close> on numbers.\<close>

fun dneg :: "double \<Rightarrow> double" where
  "dneg (Fin x) = Fin (- x)"
| "dneg PInf = NInf"
| "dneg NInf = PInf"
| "dneg NaN = NaN"

fun dadd :: "double \<Rightarrow> double \<Rightarrow> double" where
  "dadd (Fin x) (Fin y) = rnd (x + y)"
| "dadd NaN b = NaN"
| "dadd a NaN = NaN"
| "dadd PInf NInf = NaN"
| "dadd NInf PInf = NaN"
| "dadd PInf b = PInf"
| "dadd a PInf = PInf"
| "dadd NInf b = NInf"
| "dadd a NInf = NInf"

definition dsub :: "double \<Rightarrow> double \<Rightarrow> double" where
  "dsub a b = dadd a (dneg b)"

fun dmul :: "double \<Rightarrow> double \<Rightarrow> double" where
  "dmul (Fin x) (Fin y) = rnd (x * y)"
| "dmul NaN b = NaN"
| "dmul a NaN = NaN"
| "dmul PInf (Fin y) = (if y = 0 then NaN else if 0 < y then PInf else NInf)"
| "dmul NInf (Fin y) = (if y = 0 then NaN else if 0 < y then NInf else PInf)"
| "dmul (Fin x) PInf = (if x = 0 then NaN else if 0 < x then PInf else NInf)"
| "dmul (Fin x) NInf = (if x = 0 then NaN else if 0 < x then NInf else PInf)"
| "dmul PInf PInf = PInf"
| "dmul PInf NInf = NInf"
| "dmul NInf PInf = NInf"
| "dmul NInf NInf = PInf"

fun ddiv :: "double \<Rightarrow> double \<Rightarrow> double" where
  "ddiv (Fin x) (Fin y) =
     (if y \<noteq> 0 then rnd (x / y)
      else if x = 0 then NaN else if 0 < x then PInf else NInf)"
| "ddiv NaN b = NaN"
| "ddiv a NaN = NaN"
| "ddiv (Fin x) PInf = Fin 0"
| "ddiv (Fin x) NInf = Fin 0"
| "ddiv PInf (Fin y) = (if 0 \<le> y then PInf else NInf)"
| "ddiv NInf (Fin y) = (if 0 \<le> y then NInf else PInf)"
| "ddiv PInf PInf = NaN"
| "ddiv PInf NInf = NaN"
| "ddiv NInf PInf = NaN"
| "ddiv NInf NInf = NaN"

fun dless :: "double \<Rightarrow> double \<Rightarrow> bool" where
  "dless (Fin x) (Fin y) = (x < y)"
| "dless (Fin x) PInf = True"
| "dless NInf (Fin y) = True"
| "dless NInf PInf = True"
| "dless a b = False"

text \<open>\<^verbatim>\<open>Math.min\<close> of two numbers: \<^verbatim>\<open>NaN\<close> if either is.\<close>

definition dmin :: "double \<Rightarrow> double \<Rightarrow> double" where
  "dmin a b = (if a = NaN \<or> b = NaN then NaN else if dless b a then b else a)"

text \<open>\<^verbatim>\<open>Math.round\<close>: the nearest integer, a tie going upwards; the result is exact.\<close>

fun mathRound :: "double \<Rightarrow> double" where
  "mathRound (Fin x) = Fin (of_int \<lfloor>x + 1 / 2\<rfloor>)"
| "mathRound a = a"

text \<open>A number in a condition: zero and \<^verbatim>\<open>NaN\<close> are falsy.\<close>

fun truthy :: "double \<Rightarrow> bool" where
  "truthy (Fin x) = (x \<noteq> 0)"
| "truthy NaN = False"
| "truthy a = True"

text \<open>The value of a finite double, for sums taken outside the program.\<close>

fun valueOf :: "double \<Rightarrow> real" where
  "valueOf (Fin x) = x"
| "valueOf a = 0"

subsection \<open>calculateRawDebts on doubles\<close>

record shareF =
  userF :: string
  shareTypeF :: string
  shareValueF :: double

record expenseF =
  creatorF :: string
  amountF :: double
  sharedAmongstF :: "shareF list"

type_synonym debtMapF = "(string \<times> (string \<times> double) list) list"
type_synonym balanceMapF = "(string \<times> double) list"

record transactionF =
  f_from :: string
  f_to :: string
  f_amount :: double

text \<open>Lines 31 to 39.\<close>

definition owedAmountF :: "double \<Rightarrow> shareF \<Rightarrow> double" where
  "owedAmountF amt s =
     (if shareTypeF s = ''equal'' then dmul amt (shareValueF s)
      else if shareTypeF s = ''percentage'' then dmul amt (ddiv (shareValueF s) (Fin 100))
      else if shareTypeF s = ''fixed'' then shareValueF s
      else Fin 0)"

text \<open>
  \<^verbatim>\<open>if (!m[k]) m[k] = 0\<close> followed by a read of \<^verbatim>\<open>m[k]\<close>: an absent cell, a zero and
  a \<^verbatim>\<open>NaN\<close> all read as 0.
\<close>

definition orZero :: "double option \<Rightarrow> double" where
  "orZero v = (case v of None \<Rightarrow> Fin 0 | Some x \<Rightarrow> (if truthy x then x else Fin 0))"

definition rowOfF :: "debtMapF \<Rightarrow> string \<Rightarrow> (string \<times> double) list" where
  "rowOfF m k = (case map_of m k of None \<Rightarrow> [] | Some r \<Rightarrow> r)"

text \<open>Lines 42 to 50.\<close>

definition addDebtF :: "string \<Rightarrow> string \<Rightarrow> double \<Rightarrow> debtMapF \<Rightarrow> debtMapF" where
  "addDebtF usr cr owed m =
     AList.update usr
       (AList.update cr (dadd (orZero (map_of (rowOfF m usr) cr)) owed) (rowOfF m usr)) m"

definition processShareF :: "expenseF \<Rightarrow> shareF \<Rightarrow> debtMapF \<Rightarrow> debtMapF" where
  "processShareF e s m =
     (if userF s = creatorF e then m
      else addDebtF (userF s) (creatorF e) (owedAmountF (amountF e) s) m)"

definition processExpenseF :: "expenseF \<Rightarrow> debtMapF \<Rightarrow> debtMapF" where
  "processExpenseF e m = fold (processShareF e) (sharedAmongstF e) m"

definition calculateRawDebtsF :: "expenseF list \<Rightarrow> debtMapF" where
  "calculateRawDebtsF expenses = fold processExpenseF expenses []"

definition entryF :: "debtMapF \<Rightarrow> string \<Rightarrow> string \<Rightarrow> double option" where
  "entryF m debtor creditor =
     (case map_of m debtor of None \<Rightarrow> None | Some r \<Rightarrow> map_of r creditor)"

subsection \<open>simplifyDebts on doubles\<close>

text \<open>\<^verbatim>\<open>if (!balances[u]) balances[u] = 0\<close>.\<close>

definition initBalanceF :: "string \<Rightarrow> balanceMapF \<Rightarrow> balanceMapF" where
  "initBalanceF u b =
     (case map_of b u of
        None \<Rightarrow> AList.update u (Fin 0) b
      | Some v \<Rightarrow> (if truthy v then b else AList.update u (Fin 0) b))"

text \<open>Reading \<^verbatim>\<open>balances[u]\<close> in an arithmetic expression; an absent key gives \<^verbatim>\<open>NaN\<close>.\<close>

definition readF :: "balanceMapF \<Rightarrow> string \<Rightarrow> double" where
  "readF b u = (case map_of b u of None \<Rightarrow> NaN | Some v \<Rightarrow> v)"

text \<open>Lines 70 to 76.\<close>

definition applyEntryF :: "string \<Rightarrow> string \<times> double \<Rightarrow> balanceMapF \<Rightarrow> balanceMapF" where
  "applyEntryF debtor ce b =
     (let b1 = initBalanceF (fst ce) b;
          b2 = AList.update debtor (dsub (readF b1 debtor) (snd ce)) b1
      in AList.update (fst ce) (dadd (readF b2 (fst ce)) (snd ce)) b2)"

definition applyRowF :: "string \<times> (string \<times> double) list \<Rightarrow> balanceMapF \<Rightarrow> balanceMapF" where
  "applyRowF dr b = fold (applyEntryF (fst dr)) (snd dr) (initBalanceF (fst dr) b)"

definition netBalancesF :: "debtMapF \<Rightarrow> balanceMapF" where
  "netBalancesF rawDebts = fold applyRowF rawDebts []"

text \<open>The literal \<^verbatim>\<open>0.01\<close>.\<close>

definition cent :: double where
  "cent = rnd (1 / 100)"

text \<open>Lines 83 to 91.\<close>

definition debtorsOfF :: "balanceMapF \<Rightarrow> (string \<times> double) list" where
  "debtorsOfF b = map (\<lambda>p. (fst p, dneg (snd p))) (filter (\<lambda>p. dless (snd p) (dneg cent)) b)"

definition creditorsOfF :: "balanceMapF \<Rightarrow> (string \<times> double) list" where
  "creditorsOfF b = filter (\<lambda>p. \<not> dless (snd p) (dneg cent) \<and> dless cent (snd p)) b"

text \<open>
  Lines 94 and 95, a stable sort with the comparator \<^verbatim>\<open>(a, b) => b.amount - a.amount\<close>:
  an element moves behind a later one only if the comparator is positive for the pair. A
  comparator value \<^verbatim>\<open>NaN\<close> counts as 0, as the language specification says; the order
  that an inconsistent comparator produces is otherwise left to the implementation.
\<close>

fun insertDesc :: "string \<times> double \<Rightarrow> (string \<times> double) list \<Rightarrow> (string \<times> double) list" where
  "insertDesc a [] = [a]"
| "insertDesc a (b # rest) =
     (if dless (Fin 0) (dsub (snd b) (snd a)) then b # insertDesc a rest else a # b # rest)"

definition sortDescF :: "(string \<times> double) list \<Rightarrow> (string \<times> double) list" where
  "sortDescF xs = foldr insertDesc xs []"

text \<open>\<^verbatim>\<open>Math.round(amount * 100) / 100\<close>.\<close>

definition round2F :: "double \<Rightarrow> double" where
  "round2F x = ddiv (mathRound (dmul x (Fin 100))) (Fin 100)"

text \<open>Lines 115 to 120, for one side: subtract, and shift if the rest is below 0.01.\<close>

definition evictF ::
  "string \<times> double \<Rightarrow> double \<Rightarrow> (string \<times> double) list \<Rightarrow> (string \<times> double) list" where
  "evictF p amt rest =
     (if dless (dsub (snd p) amt) cent then rest else (fst p, dsub (snd p) amt) # rest)"

text \<open>Lines 100 to 121. A run that never leaves the loop has the value \<open>None\<close>.\<close>

partial_function (option) matchLoopF ::
  "(string \<times> double) list \<Rightarrow> (string \<times> double) list \<Rightarrow> transactionF list
     \<Rightarrow> transactionF list option"
where
  "matchLoopF debtors creditors transactions =
     (case debtors of
        [] \<Rightarrow> Some transactions
      | debtor # ds \<Rightarrow>
          (case creditors of
             [] \<Rightarrow> Some transactions
           | creditor # cs \<Rightarrow>
               matchLoopF
                 (evictF debtor (dmin (snd debtor) (snd creditor)) ds)
                 (evictF creditor (dmin (snd debtor) (snd creditor)) cs)
                 (transactions @
                    [\<lparr>f_from = fst debtor, f_to = fst creditor,
                      f_amount = round2F (dmin (snd debtor) (snd creditor))\<rparr>])))"

definition simplifyDebtsF :: "debtMapF \<Rightarrow> transactionF list option" where
  "simplifyDebtsF rawDebts =
     matchLoopF (sortDescF (debtorsOfF (netBalancesF rawDebts)))
                (sortDescF (creditorsOfF (netBalancesF rawDebts))) []"

subsection \<open>Auxiliary notions and example data on doubles\<close>

text \<open>
  A state of the loop in which both fronts hold \<^verbatim>\<open>NaN\<close>.
\<close>

fun stuck :: "(string \<times> double) list \<Rightarrow> (string \<times> double) list \<Rightarrow> bool" where
  "stuck ((u, NaN) # ds) ((v, NaN) # cs) = True"
| "stuck ds cs = False"

text \<open>
  Adding a list of owed amounts, in this order, to a cell that may be absent, as lines 42
  to 50 do.
\<close>

fun accumF :: "double option \<Rightarrow> double list \<Rightarrow> double option" where
  "accumF v [] = v"
| "accumF v (x # xs) = accumF (Some (dadd (orZero v) x)) xs"

definition contributesF :: "expenseF \<Rightarrow> string \<Rightarrow> string \<Rightarrow> shareF \<Rightarrow> bool" where
  "contributesF e debtor creditor s =
     (creatorF e = creditor \<and> userF s = debtor \<and> userF s \<noteq> creatorF e)"

definition shareContribsF :: "expenseF \<Rightarrow> string \<Rightarrow> string \<Rightarrow> double list" where
  "shareContribsF e debtor creditor =
     map (owedAmountF (amountF e)) (filter (contributesF e debtor creditor) (sharedAmongstF e))"

definition contribsF :: "expenseF list \<Rightarrow> string \<Rightarrow> string \<Rightarrow> double list" where
  "contribsF es debtor creditor = concat (map (\<lambda>e. shareContribsF e debtor creditor) es)"

definition sameUpToShareOrderF :: "expenseF \<Rightarrow> expenseF \<Rightarrow> bool" where
  "sameUpToShareOrderF e e' =
     (creatorF e' = creatorF e \<and> amountF e' = amountF e \<and>
      mset (sharedAmongstF e') = mset (sharedAmongstF e))"

text \<open>
  An expense paid by A and split equally among A, B and C, with the share value
  \<^verbatim>\<open>1 / 3\<close> that the expense route computes.
\<close>

definition third :: double where
  "third = ddiv (Fin 1) (Fin 3)"

definition equalSplit :: "double \<Rightarrow> expenseF" where
  "equalSplit amt =
     \<lparr>creatorF = ''A'', amountF = amt,
      sharedAmongstF =
        [\<lparr>userF = ''A'', shareTypeF = ''equal'', shareValueF = third\<rparr>,
         \<lparr>userF = ''B'', shareTypeF = ''equal'', shareValueF = third\<rparr>,
         \<lparr>userF = ''C'', shareTypeF = ''equal'', shareValueF = third\<rparr>]\<rparr>"

text \<open>B owes \<open>2\<^sup>5\<^sup>3\<close> to A and 1 to C.\<close>

definition roundingMatrix :: debtMapF where
  "roundingMatrix = [(''B'', [(''A'', Fin (2 ^ 53)), (''C'', Fin 1)])]"

text \<open>
  The finite double \<open>2\<^sup>1\<^sup>0\<^sup>2\<^sup>3\<close>, about \<^verbatim>\<open>8.99e307\<close>; three expenses with that amount,
  each owed in full by one other user; and the matrix that they give.
\<close>

definition huge :: real where
  "huge = 2 ^ 1023"

definition overflowExpenses :: "expenseF list" where
  "overflowExpenses =
     [\<lparr>creatorF = ''A'', amountF = Fin huge,
       sharedAmongstF = [\<lparr>userF = ''B'', shareTypeF = ''fixed'', shareValueF = Fin huge\<rparr>]\<rparr>,
      \<lparr>creatorF = ''C'', amountF = Fin huge,
       sharedAmongstF = [\<lparr>userF = ''B'', shareTypeF = ''fixed'', shareValueF = Fin huge\<rparr>]\<rparr>,
      \<lparr>creatorF = ''A'', amountF = Fin huge,
       sharedAmongstF = [\<lparr>userF = ''D'', shareTypeF = ''fixed'', shareValueF = Fin huge\<rparr>]\<rparr>]"

definition overflowMatrix :: debtMapF where
  "overflowMatrix =
     [(''B'', [(''A'', Fin huge), (''C'', Fin huge)]), (''D'', [(''A'', Fin huge)])]"

section \<open>Properties of the debt calculation\<close>

subsection \<open>Net balances\<close>

lemma sum_update:
  "sum_list (map snd (AList.update k v b)) = sum_list (map snd b) - cell b k + v"
  by (induction b) (auto simp: cell_def)

lemma sum_initBalance: "sum_list (map snd (initBalance u b)) = sum_list (map snd b)"
  by (simp add: initBalance_def sum_update cell_def split: option.split)

lemma sum_addBalance: "sum_list (map snd (addBalance u x b)) = sum_list (map snd b) + x"
  by (simp add: addBalance_def sum_update)

lemma sum_applyEntry: "sum_list (map snd (applyEntry d ce b)) = sum_list (map snd b)"
  by (simp add: applyEntry_def sum_addBalance sum_initBalance)

lemma sum_fold_applyEntry:
  "sum_list (map snd (fold (applyEntry d) row b)) = sum_list (map snd b)"
  by (induction row arbitrary: b) (simp_all add: sum_applyEntry)

lemma sum_applyRow: "sum_list (map snd (applyRow dr b)) = sum_list (map snd b)"
  by (simp add: applyRow_def sum_fold_applyEntry sum_initBalance)

lemma sum_fold_applyRow:
  "sum_list (map snd (fold applyRow m b)) = sum_list (map snd b)"
  by (induction m arbitrary: b) (simp_all add: sum_applyRow)

lemma distinct_initBalance: "distinct (map fst b) \<Longrightarrow> distinct (map fst (initBalance u b))"
  by (simp add: initBalance_def distinct_update split: option.split)

lemma distinct_addBalance: "distinct (map fst b) \<Longrightarrow> distinct (map fst (addBalance u x b))"
  by (simp add: addBalance_def distinct_update)

lemma distinct_applyEntry: "distinct (map fst b) \<Longrightarrow> distinct (map fst (applyEntry d ce b))"
  by (simp add: applyEntry_def distinct_addBalance distinct_initBalance)

lemma distinct_fold_applyEntry:
  "distinct (map fst b) \<Longrightarrow> distinct (map fst (fold (applyEntry d) row b))"
  by (induction row arbitrary: b) (simp_all add: distinct_applyEntry)

lemma distinct_applyRow: "distinct (map fst b) \<Longrightarrow> distinct (map fst (applyRow dr b))"
  by (simp add: applyRow_def distinct_fold_applyEntry distinct_initBalance)

lemma distinct_fold_applyRow:
  "distinct (map fst b) \<Longrightarrow> distinct (map fst (fold applyRow m b))"
  by (induction m arbitrary: b) (simp_all add: distinct_applyRow)

text \<open>Every user has one balance: the keys of the balance dictionary are distinct.\<close>

lemma distinct_netBalances: "distinct (map fst (netBalances m))"
  by (simp add: netBalances_def distinct_fold_applyRow)

lemma debtors_creditors_disjoint:
  assumes "distinct (map fst b)"
  shows "fst ` set (debtorsOf b) \<inter> fst ` set (creditorsOf b) = {}"
proof -
  have False if "(u, x) \<in> set b" "x < - (1 / 100)" "(u, y) \<in> set b" "\<not> y < - (1 / 100)" for u x y
    using eq_key_imp_eq_value [OF assms that(1) that(3)] that by simp
  then show ?thesis by (fastforce simp: debtorsOf_def creditorsOf_def)
qed

lemma length_activeUsers:
  "length (activeUsers b) = length (debtorsOf b) + length (creditorsOf b)"
  by (induction b) (auto simp: activeUsers_def debtorsOf_def creditorsOf_def)

subsection \<open>The matching loop\<close>

lemma evict_shrinks:
  "length (evict d (min (snd d) (snd c)) ds) + length (evict c (min (snd d) (snd c)) cs)
     < length (d # ds) + length (c # cs)"
  by (auto simp: evict_def min_def)

lemma matchLoop_Nil: "matchLoop [] cs ts = Some ts" "matchLoop ds [] ts = Some ts"
  by (subst matchLoop.simps, simp split: list.split)+

lemma matchLoop_Cons:
  "matchLoop (d # ds) (c # cs) ts =
     matchLoop (evict d (min (snd d) (snd c)) ds) (evict c (min (snd d) (snd c)) cs)
       (ts @ [\<lparr>t_from = fst d, t_to = fst c, t_amount = round2 (min (snd d) (snd c))\<rparr>])"
  by (subst matchLoop.simps) simp

text \<open>
  Total correctness of the loop: it returns from every state, and a property that holds
  at the start and that each iteration keeps holds of the returned transactions, for
  final work lists of which one is empty.
\<close>

lemma matchLoop_rule:
  assumes inv: "I ds cs ts"
    and step: "\<And>d ds c cs ts. I (d # ds) (c # cs) ts \<Longrightarrow>
       I (evict d (min (snd d) (snd c)) ds) (evict c (min (snd d) (snd c)) cs)
         (ts @ [\<lparr>t_from = fst d, t_to = fst c, t_amount = round2 (min (snd d) (snd c))\<rparr>])"
  shows "\<exists>ds' cs' r. matchLoop ds cs ts = Some r \<and> I ds' cs' r \<and> (ds' = [] \<or> cs' = [])"
  using inv
proof (induction "length ds + length cs" arbitrary: ds cs ts rule: less_induct)
  case less
  show ?case
  proof (cases ds)
    case Nil
    with less.prems show ?thesis by (auto simp: matchLoop_Nil)
  next
    case dCons: (Cons d ds0)
    show ?thesis
    proof (cases cs)
      case Nil
      with less.prems show ?thesis by (auto simp: matchLoop_Nil)
    next
      case cCons: (Cons c cs0)
      let ?a = "min (snd d) (snd c)"
      let ?t = "\<lparr>t_from = fst d, t_to = fst c, t_amount = round2 ?a\<rparr>"
      have I': "I (evict d ?a ds0) (evict c ?a cs0) (ts @ [?t])"
        using step less.prems dCons cCons by simp
      have lt: "length (evict d ?a ds0) + length (evict c ?a cs0) < length ds + length cs"
        using evict_shrinks [of d c ds0 cs0] dCons cCons by simp
      from less.hyps [OF lt I'] show ?thesis
        by (simp add: dCons cCons matchLoop_Cons)
    qed
  qed
qed

lemma matchLoop_terminates: "\<exists>r. matchLoop ds cs ts = Some r"
  using matchLoop_rule [of "\<lambda>_ _ _. True" ds cs ts] by auto

lemma potential_step:
  "potential (evict d (min (snd d) (snd c)) ds) (evict c (min (snd d) (snd c)) cs) + 1
     \<le> potential (d # ds) (c # cs)"
  by (auto simp: potential_def evict_def min_def)

lemma matchLoop_count:
  "\<exists>r. matchLoop ds cs ts = Some r \<and> length r \<le> length ts + potential ds cs"
proof -
  define K where "K = length ts + potential ds cs"
  define I where "I = (\<lambda>(ds :: (string \<times> real) list) (cs :: (string \<times> real) list)
        (ts :: transaction list). length ts + potential ds cs \<le> K)"
  have start: "I ds cs ts" by (simp add: I_def K_def)
  have step: "I (evict d (min (snd d) (snd c)) ds) (evict c (min (snd d) (snd c)) cs)
         (ts @ [\<lparr>t_from = fst d, t_to = fst c, t_amount = round2 (min (snd d) (snd c))\<rparr>])"
    if "I (d # ds) (c # cs) ts" for d ds c cs ts
    using that potential_step [of d c ds cs] by (simp add: I_def)
  from matchLoop_rule [of I, OF start step]
  obtain ds' cs' r where "matchLoop ds cs ts = Some r" "I ds' cs' r"
    by blast
  then show ?thesis by (auto simp: I_def K_def)
qed

lemma sortDesc_Nil: "sortDesc xs = [] \<longleftrightarrow> xs = []"
proof -
  have "length (sortDesc xs) = length xs" by (simp add: sortDesc_def)
  then show ?thesis by (metis length_0_conv)
qed

lemma potential_sortDesc: "potential (sortDesc ds) (sortDesc cs) = potential ds cs"
  by (simp add: potential_def sortDesc_Nil) (simp add: sortDesc_def)

lemma simplifyDebts_count:
  "\<exists>r. simplifyDebts m = Some r \<and>
     length r \<le> potential (debtorsOf (netBalances m)) (creditorsOf (netBalances m))"
  using matchLoop_count [of "sortDesc (debtorsOf (netBalances m))"
      "sortDesc (creditorsOf (netBalances m))" "[]"]
  by (simp add: simplifyDebts_def potential_sortDesc)

lemma round2_ge: "1 / 100 \<le> x \<Longrightarrow> 1 / 100 \<le> round2 x"
proof -
  assume "1 / 100 \<le> x"
  then have "(1::real) \<le> x * 100 + 1 / 2" by simp
  then have "1 \<le> \<lfloor>x * 100 + 1 / 2\<rfloor>" by (simp add: le_floor_iff)
  then have "(1::real) \<le> of_int \<lfloor>x * 100 + 1 / 2\<rfloor>" by linarith
  then show ?thesis by (simp add: round2_def)
qed

lemma set_evict:
  "p \<in> set (evict q a rest) \<Longrightarrow>
     p \<in> set rest \<or> (p = (fst q, snd q - a) \<and> \<not> snd q - a < 1 / 100)"
  by (auto simp: evict_def split: if_splits)

lemma sound_step:
  assumes "sound D C (d # ds) (c # cs) ts"
  shows "sound D C (evict d (min (snd d) (snd c)) ds) (evict c (min (snd d) (snd c)) cs)
           (ts @ [\<lparr>t_from = fst d, t_to = fst c, t_amount = round2 (min (snd d) (snd c))\<rparr>])"
proof -
  let ?a = "min (snd d) (snd c)"
  from assms have d: "1 / 100 \<le> snd d" "fst d \<in> D" and c: "1 / 100 \<le> snd c" "fst c \<in> C"
    and ds: "\<forall>p\<in>set ds. 1 / 100 \<le> snd p \<and> fst p \<in> D"
    and cs: "\<forall>p\<in>set cs. 1 / 100 \<le> snd p \<and> fst p \<in> C"
    and ts: "\<forall>t\<in>set ts. 1 / 100 \<le> t_amount t \<and> t_from t \<in> D \<and> t_to t \<in> C"
    by (auto simp: sound_def list_all_iff)
  have a: "1 / 100 \<le> round2 ?a" using d c by (intro round2_ge) simp
  have 1: "\<forall>p\<in>set (evict d ?a ds). 1 / 100 \<le> snd p \<and> fst p \<in> D"
    using ds d by (auto dest!: set_evict)
  have 2: "\<forall>p\<in>set (evict c ?a cs). 1 / 100 \<le> snd p \<and> fst p \<in> C"
    using cs c by (auto dest!: set_evict)
  show ?thesis unfolding sound_def list_all_iff using 1 2 ts a d c by auto
qed

lemma matchLoop_sound:
  assumes "sound D C ds cs ts"
  shows "\<exists>r. matchLoop ds cs ts = Some r \<and>
           (\<forall>t\<in>set r. 1 / 100 \<le> t_amount t \<and> t_from t \<in> D \<and> t_to t \<in> C)"
proof -
  from matchLoop_rule [of "sound D C", OF assms sound_step]
  obtain ds' cs' r where "matchLoop ds cs ts = Some r" "sound D C ds' cs' r" by blast
  then show ?thesis by (auto simp: sound_def list_all_iff)
qed

lemma sound_initial:
  "sound (fst ` set (debtorsOf b)) (fst ` set (creditorsOf b))
     (sortDesc (debtorsOf b)) (sortDesc (creditorsOf b)) []"
  by (auto simp: sound_def list_all_iff sortDesc_def debtorsOf_def creditorsOf_def)

lemma simplifyDebts_sound:
  "\<exists>r. simplifyDebts m = Some r \<and>
     (\<forall>t\<in>set r. 1 / 100 \<le> t_amount t \<and> t_from t \<in> fst ` set (debtorsOf (netBalances m))
         \<and> t_to t \<in> fst ` set (creditorsOf (netBalances m)))"
  unfolding simplifyDebts_def by (rule matchLoop_sound [OF sound_initial])

lemma simplifyDebts_total: "\<exists>r. simplifyDebts m = Some r"
  by (simp add: simplifyDebts_def matchLoop_terminates)

subsection \<open>Evaluating the example\<close>

lemmas calc_defs =
  calculateRawDebts_def processExpense_def processShare_def addDebt_def owedAmount_def
  cell_def rowOf_def entry_def

lemmas simplify_defs =
  simplifyDebts_def netBalances_def applyRow_def applyEntry_def addBalance_def
  initBalance_def cell_def debtorsOf_def creditorsOf_def activeUsers_def sortDesc_def
  evict_def round2_def

lemma example_rawDebts: "calculateRawDebts exampleExpenses = exampleMatrix"
  by (simp add: calc_defs exampleExpenses_def exampleMatrix_def)

lemma example_simplified:
  "simplifyDebts exampleMatrix =
     Some [\<lparr>t_from = ''C'', t_to = ''A'', t_amount = 45\<rparr>,
           \<lparr>t_from = ''B'', t_to = ''A'', t_amount = 15\<rparr>]"
  by (simp add: simplify_defs exampleMatrix_def matchLoop_Nil matchLoop_Cons)

lemma simplifyDebts_empty: "simplifyDebts [] = Some []"
  by (simp add: simplify_defs matchLoop_Nil)

subsection \<open>The cells of the raw debt matrix\<close>

lemma accum_Nil: "accum v [] = v"
  by (simp add: accum_def)

lemma accum_append: "accum (accum v xs) ys = accum v (xs @ ys)"
  by (simp add: accum_def)

lemma accum_mset:
  assumes "mset xs = mset ys"
  shows "accum v xs = accum v ys"
proof -
  have "sum_list xs = sum_list ys"
    using assms by (metis sum_mset_sum_list)
  moreover have "xs = [] \<longleftrightarrow> ys = []"
    using assms by (metis mset_zero_iff)
  ultimately show ?thesis by (simp add: accum_def)
qed

lemma entry_addDebt:
  "entry (addDebt u cr x m) d c =
     (if d = u \<and> c = cr then accum (entry m d c) [x] else entry m d c)"
  by (auto simp: entry_def addDebt_def update_conv' rowOf_def cell_def accum_def
      split: option.splits)

lemma entry_processShare:
  "entry (processShare e s m) d c =
     accum (entry m d c) (if contributes e d c s then [owedAmount (amount e) s] else [])"
proof (cases "contributes e d c s")
  case True
  then show ?thesis
    by (auto simp: contributes_def processShare_def entry_addDebt)
next
  case False
  then have "entry (processShare e s m) d c = entry m d c"
    by (auto simp: contributes_def processShare_def entry_addDebt)
  with False show ?thesis by (simp add: accum_Nil)
qed

lemma entry_fold_processShare:
  "entry (fold (processShare e) ss m) d c =
     accum (entry m d c) (map (owedAmount (amount e)) (filter (contributes e d c) ss))"
proof (induction ss arbitrary: m)
  case Nil
  show ?case by (simp add: accum_Nil)
next
  case (Cons s ss)
  show ?case
    by (cases "contributes e d c s")
      (simp_all add: Cons.IH entry_processShare accum_append accum_Nil)
qed

lemma entry_processExpense:
  "entry (processExpense e m) d c = accum (entry m d c) (shareContribs e d c)"
  by (simp add: processExpense_def shareContribs_def entry_fold_processShare)

lemma entry_fold_processExpense:
  "entry (fold processExpense es m) d c = accum (entry m d c) (contribs es d c)"
proof (induction es arbitrary: m)
  case Nil
  show ?case by (simp add: contribs_def accum_Nil)
next
  case (Cons e es)
  show ?case
    by (simp add: Cons.IH entry_processExpense accum_append contribs_def)
qed

lemma entry_calculateRawDebts:
  "entry (calculateRawDebts es) d c = accum None (contribs es d c)"
  unfolding calculateRawDebts_def entry_fold_processExpense by (simp add: entry_def)

lemma mset_contribs:
  "mset (contribs es d c) = sum_mset (image_mset (\<lambda>e. mset (shareContribs e d c)) (mset es))"
  by (induction es) (simp_all add: contribs_def)

lemma mset_shareContribs:
  assumes "sameUpToShareOrder e e'"
  shows "mset (shareContribs e' d c) = mset (shareContribs e d c)"
proof -
  from assms have eq: "amount e' = amount e" "contributes e' d c = contributes e d c"
    and ms: "mset (sharedAmongst e') = mset (sharedAmongst e)"
    by (simp_all add: sameUpToShareOrder_def contributes_def fun_eq_iff)
  have "mset (filter P (sharedAmongst e')) = mset (filter P (sharedAmongst e))" for P
    using ms by simp
  then have "mset (map f (filter P (sharedAmongst e'))) = mset (map f (filter P (sharedAmongst e)))"
    for f :: "share \<Rightarrow> real" and P
    by simp
  then show ?thesis by (simp add: shareContribs_def eq)
qed

lemma mset_contribs_shares:
  assumes "list_all2 sameUpToShareOrder es es'"
  shows "mset (contribs es' d c) = mset (contribs es d c)"
  using assms
  by (induction rule: list_all2_induct) (simp_all add: contribs_def mset_shareContribs)

lemma entry_order_independent:
  assumes "mset es1 = mset es" and "list_all2 sameUpToShareOrder es1 es2"
  shows "entry (calculateRawDebts es2) d c = entry (calculateRawDebts es) d c"
proof -
  have "mset (contribs es2 d c) = mset (contribs es1 d c)"
    by (rule mset_contribs_shares [OF assms(2)])
  also have "\<dots> = mset (contribs es d c)"
    by (simp add: mset_contribs assms(1))
  finally have "accum None (contribs es2 d c) = accum None (contribs es d c)"
    by (rule accum_mset)
  then show ?thesis
    by (simp add: entry_calculateRawDebts)
qed

lemma owedAmount_nonneg:
  assumes "sharesValid e" "signsValid e" "s \<in> set (sharedAmongst e)"
  shows "0 \<le> owedAmount (amount e) s"
  using assms
  by (auto simp: sharesValid_def signsValid_def owedAmount_def list_all_iff)

lemma contribs_nonneg:
  assumes "list_all sharesValid es" "list_all signsValid es" "x \<in> set (contribs es d c)"
  shows "0 \<le> x"
  using assms
  by (auto simp: contribs_def shareContribs_def list_all_iff owedAmount_nonneg)

lemma entry_nonneg:
  assumes "list_all sharesValid es" "list_all signsValid es"
    and "entry (calculateRawDebts es) d c = Some a"
  shows "0 \<le> a"
proof -
  have "0 \<le> sum_list (contribs es d c)"
    using contribs_nonneg [OF assms(1,2)] by (intro sum_list_nonneg) 
  with assms(3) show ?thesis
    by (auto simp: entry_calculateRawDebts accum_def split: if_splits)
qed

text \<open>
  Rows are created together with their first cell, so two matrices with the same cells
  have the same rows.
\<close>

lemma set_update_subset: "set (AList.update k v al) \<subseteq> insert (k, v) (set al)"
  by (induction al) auto

lemma rowsNonEmpty_addDebt: "rowsNonEmpty m \<Longrightarrow> rowsNonEmpty (addDebt u cr x m)"
  using set_update_subset [of u "AList.update cr (cell (rowOf m u) cr + x) (rowOf m u)" m]
  by (auto simp: rowsNonEmpty_def list_all_iff addDebt_def)

lemma rowsNonEmpty_processShare: "rowsNonEmpty m \<Longrightarrow> rowsNonEmpty (processShare e s m)"
  by (simp add: processShare_def rowsNonEmpty_addDebt)

lemma rowsNonEmpty_fold_processShare:
  "rowsNonEmpty m \<Longrightarrow> rowsNonEmpty (fold (processShare e) ss m)"
  by (induction ss arbitrary: m) (simp_all add: rowsNonEmpty_processShare)

lemma rowsNonEmpty_processExpense: "rowsNonEmpty m \<Longrightarrow> rowsNonEmpty (processExpense e m)"
  by (simp add: processExpense_def rowsNonEmpty_fold_processShare)

lemma rowsNonEmpty_fold:
  "rowsNonEmpty m \<Longrightarrow> rowsNonEmpty (fold processExpense es m)"
  by (induction es arbitrary: m) (simp_all add: rowsNonEmpty_processExpense)

lemma rowsNonEmpty_calculateRawDebts: "rowsNonEmpty (calculateRawDebts es)"
proof -
  have "rowsNonEmpty []" by (simp add: rowsNonEmpty_def)
  then show ?thesis unfolding calculateRawDebts_def by (rule rowsNonEmpty_fold)
qed

lemma row_has_entry:
  assumes "rowsNonEmpty m" and "map_of m d = Some r"
  shows "\<exists>c v. entry m d c = Some v"
proof -
  from assms(2) have "(d, r) \<in> set m" by (rule map_of_SomeD)
  with assms(1) have "r \<noteq> []"
    by (auto simp: rowsNonEmpty_def list_all_iff)
  then obtain c v rest where "r = (c, v) # rest" by (cases r) auto
  with assms(2) have "entry m d c = Some v" by (simp add: entry_def)
  then show ?thesis by blast
qed

lemma rows_from_entries:
  assumes "rowsNonEmpty m" and "rowsNonEmpty m'" and "\<And>c. entry m' d c = entry m d c"
  shows "map_option map_of (map_of m' d) = map_option map_of (map_of m d)"
proof (cases "map_of m d")
  case None
  then have n: "entry m d c = None" for c by (simp add: entry_def)
  have "map_of m' d = None"
  proof (rule ccontr)
    assume "map_of m' d \<noteq> None"
    then obtain r where "map_of m' d = Some r" by auto
    from row_has_entry [OF assms(2) this] assms(3) n show False by simp
  qed
  with None show ?thesis by simp
next
  case (Some r)
  from row_has_entry [OF assms(1) Some] obtain c v where "entry m d c = Some v" by blast
  with assms(3) have "entry m' d c = Some v" by simp
  then obtain r' where r': "map_of m' d = Some r'"
    by (auto simp: entry_def split: option.splits)
  have "map_of r' c = map_of r c" for c
    using assms(3) [of c] Some r' by (simp add: entry_def)
  then have "map_of r' = map_of r" by (rule ext)
  with Some r' show ?thesis by simp
qed

section \<open>Properties of the handlers\<close>

lemmas route_defs =
  findById_def isFamilyHead_def isFamilyMember_def findFinalized_def findExpenses_def
  newDebt_def markSettled_def markFinalized_def isFailure_def refused_def
  exampleDb_def exampleFamily_def exampleExpenses_def exampleTransactions_def
  exampleDebt_def settledDebt_def openDb_def settledDb_def noExpensesDb_def selfOnlyDb_def
  exampleRequest_def settleByHead_def finalizeByHead_def



lemma settle_finalized:
  assumes "findById (debtDocs db) (s_debtId rq) = Some debt"
    and "isFamilyHead db (s_user rq) (debtFamily debt)" and "s_debtIndex rq = Some i"
    and "isFinalized debt"
  shows "settle now rq db = (Status 400 ''This debt record is already finalized'', db)"
  using assms by (simp add: settle_def)

lemma settle_bad_index:
  assumes "findById (debtDocs db) (s_debtId rq) = Some debt"
    and "isFamilyHead db (s_user rq) (debtFamily debt)" and "s_debtIndex rq = Some i"
    and "\<not> isFinalized debt" and "i < 0 \<or> i \<ge> int (length (debts debt))"
  shows "settle now rq db = (Status 400 ''Invalid debt index'', db)"
  using assms by (auto simp: settle_def)

lemma settle_already:
  assumes "findById (debtDocs db) (s_debtId rq) = Some debt"
    and "isFamilyHead db (s_user rq) (debtFamily debt)" and "s_debtIndex rq = Some i"
    and "\<not> isFinalized debt" and "0 \<le> i" and "i < int (length (debts debt))"
    and "settled (debts debt ! nat i)"
  shows "settle now rq db = (Status 400 ''This debt is already settled'', db)"
  using assms by (auto simp: settle_def)

lemma settle_ok:
  assumes "findById (debtDocs db) (s_debtId rq) = Some debt"
    and "isFamilyHead db (s_user rq) (debtFamily debt)" and "s_debtIndex rq = Some i"
    and "\<not> isFinalized debt" and "0 \<le> i" and "i < int (length (debts debt))"
    and "\<not> settled (debts debt ! nat i)"
  shows "settle now rq db =
     (OkDebt (markSettled now (nat i) debt),
      db\<lparr>debtDocs := (debtDocs db)[s_debtId rq := markSettled now (nat i) debt]\<rparr>)"
  using assms by (auto simp: settle_def)

lemma markSettled_fields:
  assumes "k < length (debts debt)"
  shows "settled (debts (markSettled now k debt) ! k)"
    and "settledAt (debts (markSettled now k debt) ! k) = Some now"
    and "updatedAt (markSettled now k debt) = now"
    and "isFinalized (markSettled now k debt) = isFinalized debt"
    and "debtFamily (markSettled now k debt) = debtFamily debt"
    and "length (debts (markSettled now k debt)) = length (debts debt)"
  using assms by (simp_all add: markSettled_def)

lemma isFamilyHead_debtDocs [simp]:
  "isFamilyHead (db\<lparr>debtDocs := ds\<rparr>) u f = isFamilyHead db u f"
  by (simp add: isFamilyHead_def)

lemma findById_update:
  "i < length coll \<Longrightarrow> findById (coll[i := x]) i = Some x"
  by (simp add: findById_def)

lemma findById_Some_less: "findById coll i = Some x \<Longrightarrow> i < length coll"
  by (simp add: findById_def split: if_splits)

lemma settle_twice:
  assumes "findById (debtDocs db) (s_debtId rq) = Some debt"
    and "isFamilyHead db (s_user rq) (debtFamily debt)" and "s_debtIndex rq = Some i"
    and "\<not> isFinalized debt" and "0 \<le> i" and "i < int (length (debts debt))"
    and "\<not> settled (debts debt ! nat i)"
  shows "settle now' rq (snd (settle now rq db)) =
           (Status 400 ''This debt is already settled'', snd (settle now rq db))"
proof -
  let ?d = "markSettled now (nat i) debt"
  let ?db = "db\<lparr>debtDocs := (debtDocs db)[s_debtId rq := ?d]\<rparr>"
  have k: "nat i < length (debts debt)" using assms(5,6) by simp
  have db': "snd (settle now rq db) = ?db" by (simp add: settle_ok [OF assms])
  have 1: "findById (debtDocs ?db) (s_debtId rq) = Some ?d"
    using findById_Some_less [OF assms(1)] by (simp add: findById_update)
  have 2: "isFamilyHead ?db (s_user rq) (debtFamily ?d)"
    using assms(2) by (simp add: markSettled_fields [OF k])
  have "settle now' rq ?db = (Status 400 ''This debt is already settled'', ?db)"
    by (rule settle_already [OF 1 2 assms(3)])
       (use assms k in \<open>simp_all add: markSettled_fields [OF k]\<close>)
  then show ?thesis by (simp add: db')
qed


lemma finalize_finalized:
  assumes "findById (debtDocs db) (f_debtId rq) = Some debt"
    and "isFamilyHead db (f_user rq) (debtFamily debt)" and "isFinalized debt"
  shows "finalize now rq db = (Status 400 ''This debt record is already finalized'', db)"
  using assms by (simp add: finalize_def)

lemma finalize_unsettled:
  assumes "findById (debtDocs db) (f_debtId rq) = Some debt"
    and "isFamilyHead db (f_user rq) (debtFamily debt)" and "\<not> isFinalized debt"
    and "\<not> list_all settled (debts debt)"
  shows "finalize now rq db = (Status 400 ''All debts must be settled before finalizing'', db)"
  using assms by (simp add: finalize_def)

lemma finalize_ok:
  assumes "findById (debtDocs db) (f_debtId rq) = Some debt"
    and "isFamilyHead db (f_user rq) (debtFamily debt)" and "\<not> isFinalized debt"
    and "list_all settled (debts debt)"
  shows "finalize now rq db =
     (OkDebt (markFinalized now debt),
      db\<lparr>debtDocs := (debtDocs db)[f_debtId rq := markFinalized now debt]\<rparr>)"
  using assms by (simp add: finalize_def)

text \<open>A finalized record: no request changes it, and settle and finalize calls on it fail.\<close>

lemma findById_append: "findById coll i = Some x \<Longrightarrow> findById (coll @ ys) i = Some x"
  by (auto simp: findById_def nth_append split: if_splits)

lemma findById_update_other:
  "j \<noteq> i \<Longrightarrow> findById (coll[j := y]) i = findById coll i"
  by (simp add: findById_def)

lemma calculate_keeps:
  assumes "findById (debtDocs db) i = Some d" and "calculate now rq db = Some (r, db')"
  shows "findById (debtDocs db') i = Some d"
  using assms
  by (auto simp: calculate_def findById_append split: option.splits if_splits)

lemma settle_keeps:
  assumes "findById (debtDocs db) i = Some d" and "isFinalized d"
  shows "findById (debtDocs (snd (settle now rq db))) i = Some d"
    and "s_debtId rq = i \<Longrightarrow> isFailure (fst (settle now rq db))"
proof -
  show "findById (debtDocs (snd (settle now rq db))) i = Some d"
  proof (cases "s_debtId rq = i")
    case True
    with assms show ?thesis by (auto simp: settle_def split: option.splits)
  next
    case False
    with assms show ?thesis
      by (auto simp: settle_def findById_update_other split: option.splits)
  qed
  show "isFailure (fst (settle now rq db))" if "s_debtId rq = i"
    using that assms by (auto simp: settle_def isFailure_def split: option.splits)
qed

lemma finalize_keeps:
  assumes "findById (debtDocs db) i = Some d" and "isFinalized d"
  shows "findById (debtDocs (snd (finalize now rq db))) i = Some d"
    and "f_debtId rq = i \<Longrightarrow> isFailure (fst (finalize now rq db))"
proof -
  show "findById (debtDocs (snd (finalize now rq db))) i = Some d"
  proof (cases "f_debtId rq = i")
    case True
    with assms show ?thesis by (auto simp: finalize_def split: option.splits)
  next
    case False
    with assms show ?thesis
      by (auto simp: finalize_def findById_update_other split: option.splits)
  qed
  show "isFailure (fst (finalize now rq db))" if "f_debtId rq = i"
    using that assms by (auto simp: finalize_def isFailure_def split: option.splits)
qed

lemma handle_keeps:
  assumes "findById (debtDocs db) i = Some d" and "isFinalized d"
    and "handle now rq db = Some (a, db')"
  shows "findById (debtDocs db') i = Some d \<and> refused i (now, rq) a"
proof (cases rq)
  case (Calculate x)
  with assms show ?thesis by (auto simp: refused_def dest: calculate_keeps)
next
  case (Settle x)
  with assms settle_keeps [OF assms(1,2), where now = now and rq = x] show ?thesis
    by (auto simp: refused_def)
next
  case (Finalize x)
  with assms finalize_keeps [OF assms(1,2), where now = now and rq = x] show ?thesis
    by (auto simp: refused_def)
next
  case (Other fams exps)
  with assms show ?thesis by (auto simp: refused_def)
qed

lemma serve_keeps:
  assumes "findById (debtDocs db) i = Some d" and "isFinalized d"
    and "serve reqs db = Some (answers, db')"
  shows "findById (debtDocs db') i = Some d \<and> list_all2 (refused i) reqs answers"
  using assms
proof (induction reqs arbitrary: db answers)
  case Nil
  then show ?case by simp
next
  case (Cons tr reqs)
  from Cons.prems(3) obtain a db1 answers1
    where h: "handle (fst tr) (snd tr) db = Some (a, db1)"
      and s: "serve reqs db1 = Some (answers1, db')" and ans: "answers = a # answers1"
    by (auto split: option.splits)
  from handle_keeps [OF Cons.prems(1,2) h]
  have k: "findById (debtDocs db1) i = Some d" and r: "refused i tr a" by simp_all
  from Cons.IH [OF k Cons.prems(2) s] r ans show ?case by simp
qed

lemma serve_total: "\<exists>p. serve reqs db = Some p"
proof (induction reqs arbitrary: db)
  case Nil
  show ?case by simp
next
  case (Cons tr reqs)
  have "\<exists>p. handle (fst tr) (snd tr) db = Some p"
  proof (cases "snd tr")
    case (Calculate x)
    obtain r where "simplifyDebts (calculateRawDebts
        (findExpenses (expenseDocs db) (c_familyId x) (the (c_startDate x)) (the (c_endDate x)))) = Some r"
      using simplifyDebts_total by blast
    then show ?thesis using Calculate
      by (auto simp: calculate_def split: option.splits)
  qed auto
  then obtain p where "handle (fst tr) (snd tr) db = Some p" ..
  moreover obtain q where "serve reqs (snd p) = Some q" using Cons.IH by blast
  ultimately show ?case by simp
qed

section \<open>Properties of the calculation in double arithmetic\<close>

lemmas rnd_defs = rnd_def quantum_def binade_def pow2_def roundEven_def maxDouble_def compute_bitlen

lemma cent_value: "cent = Fin (5764607523034235 / 2 ^ 59)"
  by (simp add: cent_def rnd_defs)

lemma roundEven_of_int: "roundEven (of_int k) = k"
  by (simp add: roundEven_def)

lemma binade_pow2: "binade (2 ^ n) = int n" "binade (- (2 ^ n)) = int n"
proof -
  have "bitlen (1 * 2 ^ n) = bitlen 1 + int n" by (rule bitlen_pow2) simp
  moreover have "bitlen 1 = 1" by (simp add: compute_bitlen)
  ultimately have b: "bitlen (2 ^ n) = int n + 1" by simp
  have f: "\<lfloor>(2::real) ^ n\<rfloor> = 2 ^ n" by simp
  show "binade (2 ^ n) = int n" "binade (- (2 ^ n)) = int n"
    by (simp_all add: binade_def f b)
qed

lemma quantum_pow2:
  assumes "52 \<le> n"
  shows "quantum (2 ^ n) = 2 ^ (n - 52)" "quantum (- (2 ^ n)) = 2 ^ (n - 52)"
  using assms by (simp_all add: quantum_def binade_pow2 pow2_def nat_diff_distrib)

lemma split_pow2:
  assumes "52 \<le> n"
  shows "(2::real) ^ n = 2 ^ 52 * 2 ^ (n - 52)"
proof -
  from assms have "n = 52 + (n - 52)" by simp
  then have "(2::real) ^ n = 2 ^ (52 + (n - 52))" by simp
  also have "\<dots> = 2 ^ 52 * 2 ^ (n - 52)" by (rule power_add)
  finally show ?thesis .
qed

lemma scaled_pow2:
  assumes "52 \<le> n"
  shows "(2::real) ^ n / 2 ^ (n - 52) = of_int (2 ^ 52)"
    and "- ((2::real) ^ n) / 2 ^ (n - 52) = of_int (- (2 ^ 52))"
  by (simp_all add: split_pow2 [OF assms])

lemma rnd_pow2:
  assumes "52 \<le> n"
  shows "rnd (2 ^ n) = (if maxDouble < 2 ^ n then PInf else Fin (2 ^ n))"
    and "rnd (- (2 ^ n)) = (if maxDouble < 2 ^ n then NInf else Fin (- (2 ^ n)))"
proof -
  have prod: "of_int (2 ^ 52) * (2::real) ^ (n - 52) = 2 ^ n"
    "of_int (- (2 ^ 52)) * (2::real) ^ (n - 52) = - (2 ^ n)"
    by (simp_all add: split_pow2 [OF assms])
  show "rnd (2 ^ n) = (if maxDouble < 2 ^ n then PInf else Fin (2 ^ n))"
    unfolding rnd_def quantum_pow2 [OF assms] scaled_pow2 [OF assms] roundEven_of_int prod
    by simp
  show "rnd (- (2 ^ n)) = (if maxDouble < 2 ^ n then NInf else Fin (- (2 ^ n)))"
    unfolding rnd_def quantum_pow2 [OF assms] scaled_pow2 [OF assms] roundEven_of_int prod
    by simp
qed

lemma huge_ge1: "1 \<le> huge"
  by (simp add: huge_def)

lemma rnd_huge: "rnd huge = Fin huge" "rnd (- huge) = Fin (- huge)"
  unfolding huge_def using rnd_pow2 [of 1023] by (simp_all add: maxDouble_def)

lemma rnd_twice_huge: "rnd (huge + huge) = PInf" "rnd (- huge + - huge) = NInf"
proof -
  have r: "rnd (2 ^ 1024) = PInf" "rnd (- (2 ^ 1024)) = NInf"
    using rnd_pow2 [of 1024] by (simp_all add: maxDouble_def)
  have e: "huge + huge = 2 ^ 1024" "- huge + - huge = - (2 ^ 1024)"
    by (simp_all add: huge_def)
  show "rnd (huge + huge) = PInf" "rnd (- huge + - huge) = NInf"
    unfolding e by (rule r)+
qed

lemma dadd_huge:
  "dadd (Fin 0) (Fin huge) = Fin huge"
  "dadd (Fin 0) (Fin (- huge)) = Fin (- huge)"
  "dadd (Fin huge) (Fin huge) = PInf"
  "dadd (Fin (- huge)) (Fin (- huge)) = NInf"
  by (simp_all only: dadd.simps rnd_huge rnd_twice_huge add_0)

lemma dless_cent:
  "1 \<le> x \<Longrightarrow> dless cent (Fin x)"
  "1 \<le> x \<Longrightarrow> \<not> dless (Fin x) (dneg cent)"
  "1 \<le> x \<Longrightarrow> dless (Fin (- x)) (dneg cent)"
  "1 \<le> x \<Longrightarrow> \<not> dless cent (Fin (- x))"
  "dless cent PInf" "\<not> dless PInf (dneg cent)" "dless NInf (dneg cent)" "\<not> dless cent NInf"
  "\<not> dless NaN cent"
  by (simp_all add: cent_value)

lemma overflow_balances:
  "netBalancesF overflowMatrix =
     [(''B'', NInf), (''A'', PInf), (''C'', Fin huge), (''D'', Fin (- huge))]"
proof -
  have t: "truthy (Fin huge)" "truthy (Fin (- huge))"
    using huge_ge1 by simp_all
  show ?thesis
    by (simp add: overflowMatrix_def netBalancesF_def applyRowF_def applyEntryF_def
        initBalanceF_def readF_def dsub_def dadd_huge t del: dadd.simps(1) truthy.simps(1))
qed

lemma overflow_lists:
  "sortDescF (debtorsOfF (netBalancesF overflowMatrix)) = [(''B'', PInf), (''D'', Fin huge)]"
  "sortDescF (creditorsOfF (netBalancesF overflowMatrix)) = [(''A'', PInf), (''C'', Fin huge)]"
  by (simp_all add: overflow_balances debtorsOfF_def creditorsOfF_def sortDescF_def dsub_def
      dless_cent huge_ge1 del: dless.simps(1))

lemma evictF_NaN: "evictF (w, NaN) (dmin NaN NaN) rest = (w, NaN) # rest"
  by (simp add: evictF_def dmin_def dsub_def dless_cent)

lemma stuck_never_returns:
  assumes "matchLoopF debtors creditors ts = Some r"
  shows "\<not> stuck debtors creditors"
proof (rule matchLoopF.raw_induct [where P = "\<lambda>d c t y. \<not> stuck d c", OF _ assms], goal_cases)
  case (1 loop d c t y)
  show ?case
  proof
    assume "stuck d c"
    then obtain u v ds cs where s: "d = (u, NaN) # ds" "c = (v, NaN) # cs"
      by (auto elim: stuck.elims)
    from 1(2) have "loop ((u, NaN) # ds) ((v, NaN) # cs)
        (t @ [\<lparr>f_from = u, f_to = v, f_amount = round2F (dmin NaN NaN)\<rparr>]) = Some y"
      by (simp add: s evictF_NaN)
    then have "\<not> stuck ((u, NaN) # ds) ((v, NaN) # cs)" by (rule 1(1))
    then show False by simp
  qed
qed

lemma matchLoopF_stuck: "matchLoopF ((u, NaN) # ds) ((v, NaN) # cs) ts = None"
proof (cases "matchLoopF ((u, NaN) # ds) ((v, NaN) # cs) ts")
  case None
  then show ?thesis .
next
  case (Some r)
  from stuck_never_returns [OF this] show ?thesis by simp
qed

lemma overflow_diverges: "simplifyDebtsF overflowMatrix = None"
proof -
  have e: "evictF (w, PInf) (dmin PInf PInf) rest = (w, NaN) # rest" for w rest
    by (simp add: evictF_def dmin_def dsub_def dless_cent)
  show ?thesis
    unfolding simplifyDebtsF_def overflow_lists
    by (subst matchLoopF.simps) (simp add: e matchLoopF_stuck)
qed


lemmas calcF_defs =
  calculateRawDebtsF_def processExpenseF_def processShareF_def addDebtF_def owedAmountF_def
  orZero_def rowOfF_def entryF_def

lemmas balF_defs =
  netBalancesF_def applyRowF_def applyEntryF_def initBalanceF_def readF_def dsub_def

lemma third_value: "third = Fin (6004799503160661 / 2 ^ 54)"
  by (simp add: third_def rnd_defs)

lemma owed_thirds:
  "dmul (Fin 1) third = Fin (6004799503160661 / 2 ^ 54)"
  "dmul (Fin 2) third = Fin (6004799503160661 / 2 ^ 53)"
  "dmul (Fin 3) third = Fin 1"
  by (simp_all add: third_value rnd_defs)

lemma rounding_balances:
  "netBalancesF roundingMatrix = [(''B'', Fin (- (2 ^ 53))), (''A'', Fin (2 ^ 53)), (''C'', Fin 1)]"
  by (simp add: roundingMatrix_def balF_defs rnd_defs)

lemma thirds_forward:
  "entryF (calculateRawDebtsF [equalSplit (Fin 1), equalSplit (Fin 2), equalSplit (Fin 3)])
     ''B'' ''A'' = Some (Fin 2)"
  by (simp add: calcF_defs equalSplit_def owed_thirds) (simp add: rnd_defs)

lemma thirds_backward:
  "entryF (calculateRawDebtsF [equalSplit (Fin 3), equalSplit (Fin 2), equalSplit (Fin 1)])
     ''B'' ''A'' = Some (Fin (9007199254740991 / 2 ^ 52))"
  by (simp add: calcF_defs equalSplit_def owed_thirds) (simp add: rnd_defs)

lemma overflow_rawDebts: "calculateRawDebtsF overflowExpenses = overflowMatrix"
  by (simp add: overflowExpenses_def overflowMatrix_def calculateRawDebtsF_def processExpenseF_def
      processShareF_def addDebtF_def owedAmountF_def orZero_def rowOfF_def dadd_huge
      del: dadd.simps(1))

lemma accumF_append: "accumF (accumF v xs) ys = accumF v (xs @ ys)"
  by (induction xs arbitrary: v) simp_all

lemma accumF_None: "accumF v xs = None \<longleftrightarrow> v = None \<and> xs = []"
  by (induction xs arbitrary: v) simp_all

lemma entryF_addDebtF:
  "entryF (addDebtF u cr x m) d c =
     (if d = u \<and> c = cr then accumF (entryF m d c) [x] else entryF m d c)"
  by (auto simp: entryF_def addDebtF_def update_conv' rowOfF_def split: option.splits)

lemma entryF_processShareF:
  "entryF (processShareF e s m) d c =
     accumF (entryF m d c) (if contributesF e d c s then [owedAmountF (amountF e) s] else [])"
proof (cases "contributesF e d c s")
  case True
  then show ?thesis
    by (auto simp: contributesF_def processShareF_def entryF_addDebtF)
next
  case False
  then have "entryF (processShareF e s m) d c = entryF m d c"
    by (auto simp: contributesF_def processShareF_def entryF_addDebtF)
  with False show ?thesis by simp
qed

lemma entryF_fold_processShareF:
  "entryF (fold (processShareF e) ss m) d c =
     accumF (entryF m d c) (map (owedAmountF (amountF e)) (filter (contributesF e d c) ss))"
proof (induction ss arbitrary: m)
  case Nil
  show ?case by simp
next
  case (Cons s ss)
  show ?case
    by (cases "contributesF e d c s") (simp_all add: Cons.IH entryF_processShareF)
qed

lemma entryF_processExpenseF:
  "entryF (processExpenseF e m) d c = accumF (entryF m d c) (shareContribsF e d c)"
  by (simp add: processExpenseF_def shareContribsF_def entryF_fold_processShareF)

lemma entryF_fold_processExpenseF:
  "entryF (fold processExpenseF es m) d c = accumF (entryF m d c) (contribsF es d c)"
proof (induction es arbitrary: m)
  case Nil
  show ?case by (simp add: contribsF_def)
next
  case (Cons e es)
  show ?case
    by (simp add: Cons.IH entryF_processExpenseF accumF_append contribsF_def)
qed

lemma entryF_calculateRawDebtsF:
  "entryF (calculateRawDebtsF es) d c = accumF None (contribsF es d c)"
  unfolding calculateRawDebtsF_def entryF_fold_processExpenseF by (simp add: entryF_def)

lemma mset_contribsF:
  "mset (contribsF es d c) = sum_mset (image_mset (\<lambda>e. mset (shareContribsF e d c)) (mset es))"
  by (induction es) (simp_all add: contribsF_def)

lemma mset_shareContribsF:
  assumes "sameUpToShareOrderF e e'"
  shows "mset (shareContribsF e' d c) = mset (shareContribsF e d c)"
proof -
  from assms have eq: "amountF e' = amountF e" "contributesF e' d c = contributesF e d c"
    and ms: "mset (sharedAmongstF e') = mset (sharedAmongstF e)"
    by (simp_all add: sameUpToShareOrderF_def contributesF_def fun_eq_iff)
  have "mset (filter P (sharedAmongstF e')) = mset (filter P (sharedAmongstF e))" for P
    using ms by simp
  then have "mset (map f (filter P (sharedAmongstF e'))) = mset (map f (filter P (sharedAmongstF e)))"
    for f :: "shareF \<Rightarrow> double" and P
    by simp
  then show ?thesis by (simp add: shareContribsF_def eq)
qed

lemma mset_contribsF_shares:
  assumes "list_all2 sameUpToShareOrderF es es'"
  shows "mset (contribsF es' d c) = mset (contribsF es d c)"
  using assms
  by (induction rule: list_all2_induct) (simp_all add: contribsF_def mset_shareContribsF)

lemma contribsF_permuted:
  assumes "mset es1 = mset es" and "list_all2 sameUpToShareOrderF es1 es2"
  shows "mset (contribsF es2 d c) = mset (contribsF es d c)"
proof -
  have "mset (contribsF es2 d c) = mset (contribsF es1 d c)"
    by (rule mset_contribsF_shares [OF assms(2)])
  also have "\<dots> = mset (contribsF es d c)"
    by (simp add: mset_contribsF assms(1))
  finally show ?thesis .
qed

lemma entryF_same_pairs:
  assumes "mset es1 = mset es" and "list_all2 sameUpToShareOrderF es1 es2"
  shows "(entryF (calculateRawDebtsF es2) d c = None) = (entryF (calculateRawDebtsF es) d c = None)"
proof -
  have "(contribsF es2 d c = []) = (contribsF es d c = [])"
    using contribsF_permuted [OF assms, of d c] by (metis mset_zero_iff)
  then show ?thesis by (simp add: entryF_calculateRawDebtsF accumF_None)
qed

section \<open>The claims\<close>

text \<open>
  C1. For the three-user example (A pays 90, split equally among A, B and C with share
  value 1/3 each; B pays 30, split equally between B and C with share value 1/2 each),
  \<^const>\<open>calculateRawDebts\<close> produces the matrix B to A 30, C to A 30, C to B 15, and
  \<^const>\<open>simplifyDebts\<close> applied to that matrix returns exactly the ordered list
  (C, A, 45), (B, A, 15).
\<close>

theorem example_scenario:
  "calculateRawDebts exampleExpenses = [(''B'', [(''A'', 30)]), (''C'', [(''A'', 30), (''B'', 15)])]
   \<and> simplifyDebts [(''B'', [(''A'', 30)]), (''C'', [(''A'', 30), (''B'', 15)])] =
       Some [\<lparr>t_from = ''C'', t_to = ''A'', t_amount = 45\<rparr>,
             \<lparr>t_from = ''B'', t_to = ''A'', t_amount = 15\<rparr>]"
  using example_rawDebts example_simplified by (simp add: exampleMatrix_def)

text \<open>
  C2, as the code has it. For every raw debt matrix, the net balances that
  \<^const>\<open>simplifyDebts\<close> derives (each cell \<open>a\<close> of debtor and creditor is subtracted from the
  debtor's balance and added to the creditor's) hold one balance for each user, and in
  exact arithmetic these balances sum to zero.
\<close>

theorem netBalances_zero_sum:
  "distinct (map fst (netBalances rawDebts)) \<and> sum_list (map snd (netBalances rawDebts)) = 0"
  by (simp add: distinct_netBalances) (simp add: netBalances_def sum_fold_applyRow)

text \<open>
  C2, as the claim states it, fails in its clause on floating point: for the matrix in
  which B owes \<open>2\<^sup>5\<^sup>3\<close> to A and 1 to C, the balance of B is rounded to \<open>-2\<^sup>5\<^sup>3\<close>, and
  the balances sum to 1, taken exactly or added as doubles, which is not within
  \<^verbatim>\<open>1e-9\<close> of zero.
\<close>

theorem netBalances_float_sum_not_zero:
  "netBalancesF roundingMatrix =
     [(''B'', Fin (- (2 ^ 53))), (''A'', Fin (2 ^ 53)), (''C'', Fin 1)] \<and>
   sum_list (map (\<lambda>p. valueOf (snd p)) (netBalancesF roundingMatrix)) = 1 \<and>
   foldl dadd (Fin 0) (map snd (netBalancesF roundingMatrix)) = Fin 1 \<and>
   \<not> \<bar>sum_list (map (\<lambda>p. valueOf (snd p)) (netBalancesF roundingMatrix))\<bar> \<le> 1 / 10 ^ 9"
  by (simp add: rounding_balances) (simp add: rnd_defs)

text \<open>
  C3, as the code has it. \<^const>\<open>simplifyDebts\<close> returns for every matrix. With \<open>N\<close> the
  number of users whose net balance has magnitude above 0.01, which is the number of
  debtors plus the number of creditors: if \<open>N\<close> is zero no transaction is emitted, and
  otherwise at most \<open>N - 1\<close> transactions are emitted.
\<close>

theorem simplifyDebts_transaction_bound:
  "\<exists>transactions. simplifyDebts rawDebts = Some transactions \<and>
     length (activeUsers (netBalances rawDebts)) =
       length (debtorsOf (netBalances rawDebts)) + length (creditorsOf (netBalances rawDebts)) \<and>
     (if activeUsers (netBalances rawDebts) = [] then transactions = []
      else int (length transactions) \<le> int (length (activeUsers (netBalances rawDebts))) - 1)"
proof -
  let ?b = "netBalances rawDebts"
  obtain r where r: "simplifyDebts rawDebts = Some r"
    and le: "length r \<le> potential (debtorsOf ?b) (creditorsOf ?b)"
    using simplifyDebts_count by blast
  have n: "length (activeUsers ?b) = length (debtorsOf ?b) + length (creditorsOf ?b)"
    by (rule length_activeUsers)
  have "r = []" if "activeUsers ?b = []"
    using that le n by (simp add: potential_def)
  moreover have "int (length r) \<le> int (length (activeUsers ?b)) - 1" if "activeUsers ?b \<noteq> []"
  proof -
    from that have "0 < length (activeUsers ?b)" by simp
    moreover have "potential (debtorsOf ?b) (creditorsOf ?b) \<le> length (activeUsers ?b) - 1"
      by (simp add: potential_def n)
    ultimately show ?thesis using le by linarith
  qed
  ultimately show ?thesis using r n by auto
qed

theorem simplifyDebts_transaction_bound_witness:
  "\<exists>transactions. simplifyDebts exampleMatrix = Some transactions \<and>
     length (activeUsers (netBalances exampleMatrix)) = 3 \<and> length transactions \<le> 2"
  using simplifyDebts_transaction_bound [of exampleMatrix]
  by (simp add: simplify_defs exampleMatrix_def)

text \<open>
  C3, as the claim states it, fails on the empty matrix: there are no debtors and no
  creditors, so \<open>N = 0\<close>, and the empty list of transactions that is returned is not of
  length at most \<open>N - 1 = -1\<close>.
\<close>

theorem simplifyDebts_bound_fails_on_empty_matrix:
  "simplifyDebts [] = Some [] \<and>
   length (debtorsOf (netBalances [])) + length (creditorsOf (netBalances [])) = 0 \<and>
   \<not> int (length ([] :: transaction list))
       \<le> int (length (debtorsOf (netBalances [])) + length (creditorsOf (netBalances []))) - 1"
  by (simp add: simplifyDebts_empty) (simp add: simplify_defs)

text \<open>
  The matching loop in exact arithmetic: \<^const>\<open>simplifyDebts\<close> returns on every matrix.
  In an iteration the side that achieves the minimum has its remaining amount reduced to
  zero, one of the two fronts is removed, the work lists get shorter in total, and the
  loop goes on with them; the loop exits as soon as either list is empty.
\<close>

lemma simplifyDebts_terminates_exact:
  "(\<exists>transactions. simplifyDebts rawDebts = Some transactions) \<and>
   (snd d - min (snd d) (snd c) = 0 \<or> snd c - min (snd d) (snd c) = 0) \<and>
   (evict d (min (snd d) (snd c)) ds = ds \<or> evict c (min (snd d) (snd c)) cs = cs) \<and>
   length (evict d (min (snd d) (snd c)) ds) + length (evict c (min (snd d) (snd c)) cs)
     < length (d # ds) + length (c # cs) \<and>
   matchLoop (d # ds) (c # cs) ts =
     matchLoop (evict d (min (snd d) (snd c)) ds) (evict c (min (snd d) (snd c)) cs)
       (ts @ [\<lparr>t_from = fst d, t_to = fst c, t_amount = round2 (min (snd d) (snd c))\<rparr>]) \<and>
   matchLoop [] cs ts = Some ts \<and> matchLoop ds [] ts = Some ts"
proof -
  have "snd d - min (snd d) (snd c) = 0 \<or> snd c - min (snd d) (snd c) = 0"
    by (auto simp: min_def)
  moreover from this
  have "evict d (min (snd d) (snd c)) ds = ds \<or> evict c (min (snd d) (snd c)) cs = cs"
    by (auto simp: evict_def)
  ultimately show ?thesis
    using simplifyDebts_total [of rawDebts] evict_shrinks [of d c ds cs]
      matchLoop_Cons [of d ds c cs ts] matchLoop_Nil [of cs ts] matchLoop_Nil(2) [of ds ts]
    by blast
qed

text \<open>
  C9 fails on the code. Three expenses of \<open>2\<^sup>1\<^sup>0\<^sup>2\<^sup>3\<close> each give a matrix of finite amounts
  in which B owes that amount to A and to C, and D owes it to A. The balances of B and A
  overflow to the infinities. In the first iteration the minimum is infinite, both fronts
  become \<^verbatim>\<open>Infinity - Infinity\<close>, which is \<^verbatim>\<open>NaN\<close>, and \<^verbatim>\<open>NaN < 0.01\<close> is false: no
  front is removed, in this iteration or in any later one, and \<^const>\<open>simplifyDebtsF\<close> does
  not return.
\<close>

theorem simplifyDebts_never_returns_on_overflow:
  "calculateRawDebtsF overflowExpenses = overflowMatrix \<and>
   netBalancesF overflowMatrix =
     [(''B'', NInf), (''A'', PInf), (''C'', Fin huge), (''D'', Fin (- huge))] \<and>
   simplifyDebtsF overflowMatrix = None"
  by (simp add: overflow_rawDebts overflow_balances overflow_diverges)

text \<open>
  C10. Every transaction that \<^const>\<open>simplifyDebts\<close> emits, for every matrix, has an
  amount of at least 0.01 after rounding, hence a strictly positive one, and distinct
  endpoints: a user has a single net balance and is not both a debtor and a creditor.
\<close>

theorem simplifyDebts_transactions_positive_distinct:
  assumes "simplifyDebts rawDebts = Some transactions" and "t \<in> set transactions"
  shows "1 / 100 \<le> t_amount t \<and> 0 < t_amount t \<and> t_from t \<noteq> t_to t"
proof -
  let ?b = "netBalances rawDebts"
  from simplifyDebts_sound [of rawDebts] assms
  have t: "1 / 100 \<le> t_amount t" "t_from t \<in> fst ` set (debtorsOf ?b)"
    "t_to t \<in> fst ` set (creditorsOf ?b)"
    by auto
  have "t_from t \<noteq> t_to t"
  proof
    assume "t_from t = t_to t"
    with t(2,3) have "t_to t \<in> fst ` set (debtorsOf ?b) \<inter> fst ` set (creditorsOf ?b)"
      by simp
    with debtors_creditors_disjoint [OF distinct_netBalances, of rawDebts] show False
      by simp
  qed
  with t(1) show ?thesis by simp
qed

theorem simplifyDebts_transactions_positive_distinct_witness:
  "simplifyDebts exampleMatrix =
     Some [\<lparr>t_from = ''C'', t_to = ''A'', t_amount = 45\<rparr>,
           \<lparr>t_from = ''B'', t_to = ''A'', t_amount = 15\<rparr>] \<and>
   \<lparr>t_from = ''C'', t_to = ''A'', t_amount = 45\<rparr>
     \<in> set [\<lparr>t_from = ''C'', t_to = ''A'', t_amount = 45\<rparr>,
            \<lparr>t_from = ''B'', t_to = ''A'', t_amount = 15\<rparr>] \<and>
   (1::real) / 100 \<le> t_amount \<lparr>t_from = ''C'', t_to = ''A'', t_amount = 45\<rparr> \<and>
   t_from \<lparr>t_from = ''C'', t_to = ''A'', t_amount = 45::real\<rparr>
     \<noteq> t_to \<lparr>t_from = ''C'', t_to = ''A'', t_amount = 45::real\<rparr>"
proof -
  have s: "simplifyDebts exampleMatrix =
     Some [\<lparr>t_from = ''C'', t_to = ''A'', t_amount = 45\<rparr>,
           \<lparr>t_from = ''B'', t_to = ''A'', t_amount = 15\<rparr>]"
    by (rule example_simplified)
  have m: "\<lparr>t_from = ''C'', t_to = ''A'', t_amount = 45\<rparr>
     \<in> set [\<lparr>t_from = ''C'', t_to = ''A'', t_amount = 45\<rparr>,
            \<lparr>t_from = ''B'', t_to = ''A'', t_amount = 15\<rparr>]"
    by simp
  from simplifyDebts_transactions_positive_distinct [OF s m] s m show ?thesis by simp
qed

text \<open>
  C7, as the code has it. For every expense list whose shares satisfy the creation-time
  invariants (equal shares at 1 / participantCount, percentage shares between 0 and 100
  that total 100 up to 0.01, fixed shares that total the expense amount up to 0.01) and
  whose amounts and fixed shares are not negative, every cell of the matrix returned by
  \<^const>\<open>calculateRawDebts\<close> is non-negative.
\<close>

theorem rawDebts_nonnegative:
  assumes "list_all sharesValid expenses" and "list_all signsValid expenses"
    and "entry (calculateRawDebts expenses) debtor creditor = Some a"
  shows "0 \<le> a"
  using assms by (rule entry_nonneg)

theorem rawDebts_nonnegative_witness:
  "list_all sharesValid exampleExpenses \<and> list_all signsValid exampleExpenses \<and>
   entry (calculateRawDebts exampleExpenses) ''C'' ''B'' = Some 15 \<and> (0::real) \<le> 15"
proof -
  have 1: "list_all sharesValid exampleExpenses"
    by (simp add: exampleExpenses_def sharesValid_def)
  have 2: "list_all signsValid exampleExpenses"
    by (simp add: exampleExpenses_def signsValid_def)
  have 3: "entry (calculateRawDebts exampleExpenses) ''C'' ''B'' = Some 15"
    by (simp add: example_rawDebts exampleMatrix_def entry_def)
  from rawDebts_nonnegative [OF 1 2 3] 1 2 3 show ?thesis by simp
qed

text \<open>
  C7, as the claim states it, fails: the share validation of the expense route accepts
  fixed shares 150 and -50 for an expense of 100 unchanged, they satisfy the stated
  invariants, and the cell of B and A in the matrix is -50.
\<close>

theorem rawDebts_negative_entry:
  "processSharedAmongst exampleFamily (amount negativeShareExpense)
       (sharedAmongst negativeShareExpense) = Inr (sharedAmongst negativeShareExpense) \<and>
   list_all sharesValid [negativeShareExpense] \<and>
   entry (calculateRawDebts [negativeShareExpense]) ''B'' ''A'' = Some (- 50) \<and>
   \<not> (0::real) \<le> - 50"
  by (simp add: processSharedAmongst_def exampleFamily_def negativeShareExpense_def
      sharesValid_def calc_defs)

text \<open>
  C8, as the code has it. When the expense list is permuted, and the shares within each
  expense are permuted, the matrix of \<^const>\<open>calculateRawDebts\<close> is extensionally the same
  in exact arithmetic: every pair of debtor and creditor has the same cell, and every
  debtor has the same row as a dictionary. On doubles the two matrices have the same
  pairs of debtor and creditor, and each cell holds the owed amounts of the shares that
  contribute to it, the same ones up to order, added as doubles in the order of
  processing.
\<close>

theorem calculateRawDebts_order_up_to_rounding:
  assumes "mset permuted = mset expenses"
    and "list_all2 sameUpToShareOrder permuted reshuffled"
    and "mset permutedF = mset expensesF"
    and "list_all2 sameUpToShareOrderF permutedF reshuffledF"
  shows "entry (calculateRawDebts reshuffled) debtor creditor =
           entry (calculateRawDebts expenses) debtor creditor \<and>
         map_option map_of (map_of (calculateRawDebts reshuffled) debtor) =
           map_option map_of (map_of (calculateRawDebts expenses) debtor) \<and>
         (entryF (calculateRawDebtsF reshuffledF) debtor creditor = None) =
           (entryF (calculateRawDebtsF expensesF) debtor creditor = None) \<and>
         entryF (calculateRawDebtsF expensesF) debtor creditor =
           accumF None (contribsF expensesF debtor creditor) \<and>
         entryF (calculateRawDebtsF reshuffledF) debtor creditor =
           accumF None (contribsF reshuffledF debtor creditor) \<and>
         mset (contribsF reshuffledF debtor creditor) = mset (contribsF expensesF debtor creditor)"
proof (intro conjI)
  show "entry (calculateRawDebts reshuffled) debtor creditor =
      entry (calculateRawDebts expenses) debtor creditor"
    using assms(1,2) by (rule entry_order_independent)
  show "map_option map_of (map_of (calculateRawDebts reshuffled) debtor) =
      map_option map_of (map_of (calculateRawDebts expenses) debtor)"
    using rowsNonEmpty_calculateRawDebts rowsNonEmpty_calculateRawDebts
      entry_order_independent [OF assms(1,2)]
    by (rule rows_from_entries)
  show "(entryF (calculateRawDebtsF reshuffledF) debtor creditor = None) =
      (entryF (calculateRawDebtsF expensesF) debtor creditor = None)"
    using assms(3,4) by (rule entryF_same_pairs)
  show "entryF (calculateRawDebtsF expensesF) debtor creditor =
      accumF None (contribsF expensesF debtor creditor)"
    and "entryF (calculateRawDebtsF reshuffledF) debtor creditor =
      accumF None (contribsF reshuffledF debtor creditor)"
    by (rule entryF_calculateRawDebtsF)+
  show "mset (contribsF reshuffledF debtor creditor) = mset (contribsF expensesF debtor creditor)"
    using assms(3,4) by (rule contribsF_permuted)
qed

theorem calculateRawDebts_order_up_to_rounding_witness:
  "mset (rev exampleExpenses) = mset exampleExpenses \<and>
   list_all2 sameUpToShareOrder (rev exampleExpenses) reorderedExpenses \<and>
   mset [equalSplit (Fin 3), equalSplit (Fin 2), equalSplit (Fin 1)] =
     mset [equalSplit (Fin 1), equalSplit (Fin 2), equalSplit (Fin 3)] \<and>
   list_all2 sameUpToShareOrderF [equalSplit (Fin 3), equalSplit (Fin 2), equalSplit (Fin 1)]
     [equalSplit (Fin 3), equalSplit (Fin 2), equalSplit (Fin 1)] \<and>
   entry (calculateRawDebts reorderedExpenses) ''C'' ''A'' = Some 30 \<and>
   entry (calculateRawDebts exampleExpenses) ''C'' ''A'' = Some 30 \<and>
   mset (contribsF [equalSplit (Fin 3), equalSplit (Fin 2), equalSplit (Fin 1)] ''C'' ''A'') =
     mset (contribsF [equalSplit (Fin 1), equalSplit (Fin 2), equalSplit (Fin 3)] ''C'' ''A'')"
proof -
  let ?fwd = "[equalSplit (Fin 1), equalSplit (Fin 2), equalSplit (Fin 3)]"
  let ?bwd = "[equalSplit (Fin 3), equalSplit (Fin 2), equalSplit (Fin 1)]"
  have 1: "mset (rev exampleExpenses) = mset exampleExpenses" by simp
  have 2: "list_all2 sameUpToShareOrder (rev exampleExpenses) reorderedExpenses"
    by (simp add: exampleExpenses_def reorderedExpenses_def sameUpToShareOrder_def)
  have 3: "mset ?bwd = mset ?fwd"
    using mset_rev [of ?fwd] by simp
  have 4: "list_all2 sameUpToShareOrderF ?bwd ?bwd"
    by (simp add: sameUpToShareOrderF_def)
  have 5: "entry (calculateRawDebts exampleExpenses) ''C'' ''A'' = Some 30"
    by (simp add: example_rawDebts exampleMatrix_def entry_def)
  note t = calculateRawDebts_order_up_to_rounding [OF 1 2 3 4, of "''C''" "''A''"]
  from t have "entry (calculateRawDebts reorderedExpenses) ''C'' ''A'' =
      entry (calculateRawDebts exampleExpenses) ''C'' ''A''"
    by (rule conjunct1)
  moreover from t have "mset (contribsF ?bwd ''C'' ''A'') = mset (contribsF ?fwd ''C'' ''A'')"
    by blast
  ultimately show ?thesis using 1 2 3 4 5 by simp
qed

text \<open>
  C8, as the claim states it, fails on doubles. Three expenses of 1, 2 and 3, each paid by
  A and split equally among A, B and C, make B owe 2 to A when processed in this order,
  and \<^verbatim>\<open>1.9999999999999998\<close> when processed in the reverse order.
\<close>

theorem calculateRawDebts_order_changes_amount:
  "mset [equalSplit (Fin 3), equalSplit (Fin 2), equalSplit (Fin 1)] =
     mset [equalSplit (Fin 1), equalSplit (Fin 2), equalSplit (Fin 3)] \<and>
   entryF (calculateRawDebtsF [equalSplit (Fin 1), equalSplit (Fin 2), equalSplit (Fin 3)])
     ''B'' ''A'' = Some (Fin 2) \<and>
   entryF (calculateRawDebtsF [equalSplit (Fin 3), equalSplit (Fin 2), equalSplit (Fin 1)])
     ''B'' ''A'' = Some (Fin (9007199254740991 / 2 ^ 52)) \<and>
   Fin 2 \<noteq> Fin (9007199254740991 / 2 ^ 52)"
proof -
  have "mset [equalSplit (Fin 3), equalSplit (Fin 2), equalSplit (Fin 1)] =
      mset [equalSplit (Fin 1), equalSplit (Fin 2), equalSplit (Fin 3)]"
    using mset_rev [of "[equalSplit (Fin 1), equalSplit (Fin 2), equalSplit (Fin 3)]"] by simp
  then show ?thesis
    using thirds_forward thirds_backward by simp
qed




text \<open>
  C6. A settle call by the family head on an existing record with a transaction index:
  it fails when the record is finalized, fails when the index is negative or not below
  the number of transactions, and fails when that transaction is settled already; in each
  case the database is unchanged. Otherwise it succeeds: the transaction is marked
  settled, its \<open>settledAt\<close> and the record's \<open>updatedAt\<close> hold the time of the call, and
  the record is saved. A second settle call on the same index then fails as already
  settled. The failures are answered with status 400 and the handler's message.
\<close>

theorem settle_behaviour:
  assumes "findById (debtDocs db) (s_debtId rq) = Some debt"
    and "isFamilyHead db (s_user rq) (debtFamily debt)"
    and "s_debtIndex rq = Some i"
  shows
    "(isFinalized debt \<longrightarrow>
        settle now rq db = (Status 400 ''This debt record is already finalized'', db)) \<and>
     (\<not> isFinalized debt \<and> (i < 0 \<or> i \<ge> int (length (debts debt))) \<longrightarrow>
        settle now rq db = (Status 400 ''Invalid debt index'', db)) \<and>
     (\<not> isFinalized debt \<and> 0 \<le> i \<and> i < int (length (debts debt)) \<and>
      settled (debts debt ! nat i) \<longrightarrow>
        settle now rq db = (Status 400 ''This debt is already settled'', db)) \<and>
     (\<not> isFinalized debt \<and> 0 \<le> i \<and> i < int (length (debts debt)) \<and>
      \<not> settled (debts debt ! nat i) \<longrightarrow>
        settle now rq db =
          (OkDebt (markSettled now (nat i) debt),
           db\<lparr>debtDocs := (debtDocs db)[s_debtId rq := markSettled now (nat i) debt]\<rparr>) \<and>
        settled (debts (markSettled now (nat i) debt) ! nat i) \<and>
        settledAt (debts (markSettled now (nat i) debt) ! nat i) = Some now \<and>
        updatedAt (markSettled now (nat i) debt) = now \<and>
        settle later rq (snd (settle now rq db)) =
          (Status 400 ''This debt is already settled'', snd (settle now rq db)))"
proof (intro conjI impI; (elim conjE)?)
  assume "isFinalized debt"
  with assms show "settle now rq db = (Status 400 ''This debt record is already finalized'', db)"
    by (rule settle_finalized)
next
  assume "\<not> isFinalized debt" "i < 0 \<or> i \<ge> int (length (debts debt))"
  with assms show "settle now rq db = (Status 400 ''Invalid debt index'', db)"
    by (rule settle_bad_index)
next
  assume "\<not> isFinalized debt" "0 \<le> i" "i < int (length (debts debt))"
    "settled (debts debt ! nat i)"
  with assms show "settle now rq db = (Status 400 ''This debt is already settled'', db)"
    by (rule settle_already)
next
  assume h: "\<not> isFinalized debt" "0 \<le> i" "i < int (length (debts debt))"
    "\<not> settled (debts debt ! nat i)"
  then have k: "nat i < length (debts debt)" by simp
  show "settle now rq db =
      (OkDebt (markSettled now (nat i) debt),
       db\<lparr>debtDocs := (debtDocs db)[s_debtId rq := markSettled now (nat i) debt]\<rparr>)"
    using assms h by (rule settle_ok)
  show "settled (debts (markSettled now (nat i) debt) ! nat i)"
    "settledAt (debts (markSettled now (nat i) debt) ! nat i) = Some now"
    "updatedAt (markSettled now (nat i) debt) = now"
    by (simp_all add: markSettled_fields [OF k])
  show "settle later rq (snd (settle now rq db)) =
      (Status 400 ''This debt is already settled'', snd (settle now rq db))"
    using assms h by (rule settle_twice)
qed

theorem settle_behaviour_witness:
  "settle 2000 (settleByHead 0) openDb =
     (OkDebt (markSettled 2000 0 exampleDebt),
      openDb\<lparr>debtDocs := [markSettled 2000 0 exampleDebt]\<rparr>) \<and>
   settle 2001 (settleByHead 0) (snd (settle 2000 (settleByHead 0) openDb)) =
     (Status 400 ''This debt is already settled'', snd (settle 2000 (settleByHead 0) openDb)) \<and>
   settle 2000 (settleByHead 2) openDb = (Status 400 ''Invalid debt index'', openDb) \<and>
   settle 2000 (settleByHead (- 1)) openDb = (Status 400 ''Invalid debt index'', openDb) \<and>
   settle 2002 (settleByHead 1) settledDb = (Status 400 ''This debt is already settled'', settledDb) \<and>
   settle 4000 (settleByHead 0) (settledDb\<lparr>debtDocs := [markFinalized 3000 settledDebt]\<rparr>) =
     (Status 400 ''This debt record is already finalized'',
      settledDb\<lparr>debtDocs := [markFinalized 3000 settledDebt]\<rparr>)"
proof -
  let ?fin = "settledDb\<lparr>debtDocs := [markFinalized 3000 settledDebt]\<rparr>"
  have o: "findById (debtDocs openDb) (s_debtId (settleByHead i)) = Some exampleDebt"
    "isFamilyHead openDb (s_user (settleByHead i)) (debtFamily exampleDebt)"
    "s_debtIndex (settleByHead i) = Some i" for i
    by (simp_all add: route_defs)
  have s: "findById (debtDocs settledDb) (s_debtId (settleByHead i)) = Some settledDebt"
    "isFamilyHead settledDb (s_user (settleByHead i)) (debtFamily settledDebt)" for i
    by (simp_all add: route_defs)
  have f: "findById (debtDocs ?fin) (s_debtId (settleByHead i)) = Some (markFinalized 3000 settledDebt)"
    "isFamilyHead ?fin (s_user (settleByHead i)) (debtFamily (markFinalized 3000 settledDebt))" for i
    by (simp_all add: route_defs)
  have e: "\<not> isFinalized exampleDebt" "length (debts exampleDebt) = 2"
    "\<not> settled (debts exampleDebt ! 0)"
    by (simp_all add: route_defs)
  have t: "\<not> isFinalized settledDebt" "length (debts settledDebt) = 2"
    "settled (debts settledDebt ! 1)" "isFinalized (markFinalized 3000 settledDebt)"
    by (simp_all add: route_defs)
  have a: "\<not> isFinalized exampleDebt \<and> (0::int) \<le> 0 \<and> 0 < int (length (debts exampleDebt)) \<and>
      \<not> settled (debts exampleDebt ! nat 0)"
    using e by simp
  from settle_behaviour [OF o [of 0], where now = 2000 and later = 2001] a
  have 1: "settle 2000 (settleByHead 0) openDb =
     (OkDebt (markSettled 2000 (nat 0) exampleDebt),
      openDb\<lparr>debtDocs := (debtDocs openDb)[s_debtId (settleByHead 0) := markSettled 2000 (nat 0) exampleDebt]\<rparr>)"
    and 2: "settle 2001 (settleByHead 0) (snd (settle 2000 (settleByHead 0) openDb)) =
     (Status 400 ''This debt is already settled'', snd (settle 2000 (settleByHead 0) openDb))"
    by blast+
  from 1 have c1: "settle 2000 (settleByHead 0) openDb =
     (OkDebt (markSettled 2000 0 exampleDebt),
      openDb\<lparr>debtDocs := [markSettled 2000 0 exampleDebt]\<rparr>)"
    by (simp add: openDb_def settleByHead_def)
  from settle_behaviour [OF o [of 2], where now = 2000 and later = 2001] e
  have 3: "settle 2000 (settleByHead 2) openDb = (Status 400 ''Invalid debt index'', openDb)"
    by simp
  from settle_behaviour [OF o [of "- 1"], where now = 2000 and later = 2001] e
  have 4: "settle 2000 (settleByHead (- 1)) openDb = (Status 400 ''Invalid debt index'', openDb)"
    by simp
  from settle_behaviour [OF s [of 1] o(3) [of 1], where now = 2002 and later = 2003] t
  have 5: "settle 2002 (settleByHead 1) settledDb =
      (Status 400 ''This debt is already settled'', settledDb)"
    by simp
  from settle_behaviour [OF f [of 0] o(3) [of 0], where now = 4000 and later = 4001] t
  have 6: "settle 4000 (settleByHead 0) ?fin =
      (Status 400 ''This debt record is already finalized'', ?fin)"
    by simp
  from c1 2 3 4 5 6 show ?thesis by simp
qed

text \<open>
  C5. A finalize call by the family head on an existing record: it fails when the record
  is finalized, and fails when a transaction of the record is not settled; in both cases
  the database is unchanged. When the record is not finalized and every transaction is
  settled, it succeeds: \<open>isFinalized\<close> is set, \<open>finalizedAt\<close> holds the time of the call,
  and the record is saved. After that, whatever requests the server handles, the record
  stays as it is and every settle or finalize call on it is answered with a failure. The
  failures are answered with status 400 and the handler's message.
\<close>

theorem finalize_gating:
  assumes "findById (debtDocs db) (f_debtId rq) = Some debt"
    and "isFamilyHead db (f_user rq) (debtFamily debt)"
  shows
    "(isFinalized debt \<longrightarrow>
        finalize now rq db = (Status 400 ''This debt record is already finalized'', db)) \<and>
     (\<not> isFinalized debt \<and> \<not> list_all settled (debts debt) \<longrightarrow>
        finalize now rq db = (Status 400 ''All debts must be settled before finalizing'', db)) \<and>
     (\<not> isFinalized debt \<and> list_all settled (debts debt) \<longrightarrow>
        finalize now rq db =
          (OkDebt (markFinalized now debt),
           db\<lparr>debtDocs := (debtDocs db)[f_debtId rq := markFinalized now debt]\<rparr>) \<and>
        isFinalized (markFinalized now debt) \<and>
        finalizedAt (markFinalized now debt) = Some now \<and>
        (\<forall>reqs. \<exists>answers db'.
           serve reqs (snd (finalize now rq db)) = Some (answers, db') \<and>
           findById (debtDocs db') (f_debtId rq) = Some (markFinalized now debt) \<and>
           list_all2 (refused (f_debtId rq)) reqs answers))"
proof (intro conjI impI allI; (elim conjE)?)
  assume "isFinalized debt"
  with assms show "finalize now rq db = (Status 400 ''This debt record is already finalized'', db)"
    by (rule finalize_finalized)
next
  assume "\<not> isFinalized debt" "\<not> list_all settled (debts debt)"
  with assms show "finalize now rq db =
      (Status 400 ''All debts must be settled before finalizing'', db)"
    by (rule finalize_unsettled)
next
  assume h: "\<not> isFinalized debt" "list_all settled (debts debt)"
  show ok: "finalize now rq db =
      (OkDebt (markFinalized now debt),
       db\<lparr>debtDocs := (debtDocs db)[f_debtId rq := markFinalized now debt]\<rparr>)"
    using assms h by (rule finalize_ok)
  show fin: "isFinalized (markFinalized now debt)"
    and "finalizedAt (markFinalized now debt) = Some now"
    by (simp_all add: markFinalized_def)
  fix reqs
  let ?db = "snd (finalize now rq db)"
  have stored: "findById (debtDocs ?db) (f_debtId rq) = Some (markFinalized now debt)"
    using findById_Some_less [OF assms(1)] by (simp add: ok findById_update)
  obtain answers db' where s: "serve reqs ?db = Some (answers, db')"
    using serve_total [of reqs ?db] by auto
  from serve_keeps [OF stored fin s] s
  show "\<exists>answers db'. serve reqs ?db = Some (answers, db') \<and>
      findById (debtDocs db') (f_debtId rq) = Some (markFinalized now debt) \<and>
      list_all2 (refused (f_debtId rq)) reqs answers"
    by blast
qed

theorem finalize_gating_witness:
  "finalize 3000 finalizeByHead openDb =
     (Status 400 ''All debts must be settled before finalizing'', openDb) \<and>
   finalize 3000 finalizeByHead settledDb =
     (OkDebt (markFinalized 3000 settledDebt),
      settledDb\<lparr>debtDocs := [markFinalized 3000 settledDebt]\<rparr>) \<and>
   finalize 4000 finalizeByHead (settledDb\<lparr>debtDocs := [markFinalized 3000 settledDebt]\<rparr>) =
     (Status 400 ''This debt record is already finalized'',
      settledDb\<lparr>debtDocs := [markFinalized 3000 settledDebt]\<rparr>) \<and>
   serve [(3500, Settle (settleByHead 0)), (4000, Finalize finalizeByHead)]
       (snd (finalize 3000 finalizeByHead settledDb)) =
     Some ([Some (Status 400 ''This debt record is already finalized''),
            Some (Status 400 ''This debt record is already finalized'')],
           settledDb\<lparr>debtDocs := [markFinalized 3000 settledDebt]\<rparr>) \<and>
   list_all2 (refused 0) [(3500, Settle (settleByHead 0)), (4000, Finalize finalizeByHead)]
     [Some (Status 400 ''This debt record is already finalized''),
      Some (Status 400 ''This debt record is already finalized'')]"
proof -
  let ?fin = "settledDb\<lparr>debtDocs := [markFinalized 3000 settledDebt]\<rparr>"
  let ?reqs = "[(3500, Settle (settleByHead 0)), (4000, Finalize finalizeByHead)]"
  have o: "findById (debtDocs openDb) (f_debtId finalizeByHead) = Some exampleDebt"
    "isFamilyHead openDb (f_user finalizeByHead) (debtFamily exampleDebt)"
    by (simp_all add: route_defs)
  have s: "findById (debtDocs settledDb) (f_debtId finalizeByHead) = Some settledDebt"
    "isFamilyHead settledDb (f_user finalizeByHead) (debtFamily settledDebt)"
    by (simp_all add: route_defs)
  have f: "findById (debtDocs ?fin) (f_debtId finalizeByHead) = Some (markFinalized 3000 settledDebt)"
    "isFamilyHead ?fin (f_user finalizeByHead) (debtFamily (markFinalized 3000 settledDebt))"
    by (simp_all add: route_defs)
  have e: "\<not> isFinalized exampleDebt" "\<not> list_all settled (debts exampleDebt)"
    by (simp_all add: route_defs)
  have t: "\<not> isFinalized settledDebt" "list_all settled (debts settledDebt)"
    "isFinalized (markFinalized 3000 settledDebt)"
    by (simp_all add: route_defs)
  from finalize_gating [OF o, where now = 3000] e
  have 1: "finalize 3000 finalizeByHead openDb =
     (Status 400 ''All debts must be settled before finalizing'', openDb)"
    by simp
  from finalize_gating [OF s, where now = 3000] t
  have 2: "finalize 3000 finalizeByHead settledDb =
     (OkDebt (markFinalized 3000 settledDebt),
      settledDb\<lparr>debtDocs := (debtDocs settledDb)[f_debtId finalizeByHead := markFinalized 3000 settledDebt]\<rparr>)"
    by blast
  from 2 have c2: "finalize 3000 finalizeByHead settledDb =
     (OkDebt (markFinalized 3000 settledDebt), ?fin)"
    by (simp add: settledDb_def finalizeByHead_def)
  from finalize_gating [OF f, where now = 4000] t
  have 3: "finalize 4000 finalizeByHead ?fin =
     (Status 400 ''This debt record is already finalized'', ?fin)"
    by simp
  have st: "settle 3500 (settleByHead 0) ?fin =
      (Status 400 ''This debt record is already finalized'', ?fin)"
  proof -
    have "findById (debtDocs ?fin) (s_debtId (settleByHead 0)) = Some (markFinalized 3000 settledDebt)"
      and "isFamilyHead ?fin (s_user (settleByHead 0)) (debtFamily (markFinalized 3000 settledDebt))"
      and "s_debtIndex (settleByHead 0) = Some 0"
      by (simp_all add: route_defs)
    then show ?thesis using t(3) by (rule settle_finalized)
  qed
  have 4: "serve ?reqs (snd (finalize 3000 finalizeByHead settledDb)) =
     Some ([Some (Status 400 ''This debt record is already finalized''),
            Some (Status 400 ''This debt record is already finalized'')], ?fin)"
    by (simp add: c2 3 st)
  have 5: "list_all2 (refused 0) ?reqs
     [Some (Status 400 ''This debt record is already finalized''),
      Some (Status 400 ''This debt record is already finalized'')]"
    by (simp add: refused_def isFailure_def settleByHead_def finalizeByHead_def)
  from 1 c2 3 4 5 show ?thesis by simp
qed

end
